theory Spec2Isabelle
  imports Complex_Main
begin

section \<open>Conventions of the embedding\<close>

text \<open>
  The module \<^verbatim>\<open>qde.py\<close> computes with Python integers and with NumPy arrays of
  double-precision numbers. Python integers are \<^typ>\<open>int\<close>. Array entries are modelled
  as \<^typ>\<open>real\<close>: every statement below about the value of an entry is a statement about
  the exact arithmetic the code denotes, not about its rounding. A one-dimensional array is
  a list, a two-dimensional array is the list of its rows.

  Every exception the code or a called library routine can raise is a value of
  \<open>error\<close>; a function that can raise returns \<open>error + 'a\<close> with \<open>Inl\<close> for the
  exception.
\<close>

datatype error =
    NotImplementedError   \<comment> \<open>raised by \<^verbatim>\<open>get_finite_difference_coefficients\<close>\<close>
  | NameError             \<comment> \<open>a name that no enclosing scope binds\<close>
  | IndexError            \<comment> \<open>an index outside an array\<close>
  | ValueError            \<comment> \<open>\<^verbatim>\<open>range\<close> with step 0, a reshape or an assignment of unfit shape\<close>
  | FindiffError          \<comment> \<open>whatever the package \<^verbatim>\<open>findiff\<close> raises\<close>
  | SamplerError          \<comment> \<open>whatever \<^verbatim>\<open>QBSolv().sample_qubo\<close> raises\<close>

type_synonym vector = "real list"
type_synonym matrix = "real list list"

text \<open>The monadic bind of \<open>error + 'a\<close>: the first exception ends the computation.\<close>

definition bind_err :: "error + 'a \<Rightarrow> ('a \<Rightarrow> error + 'b) \<Rightarrow> error + 'b" where
  "bind_err m f = (case m of Inl e \<Rightarrow> Inl e | Inr x \<Rightarrow> f x)"

section \<open>Finite difference coefficients\<close>

text \<open>
  \<^verbatim>\<open>get_finite_difference_coefficients(deriv_order, accuracy_order)\<close>. The branch for an
  even accuracy order calls \<^verbatim>\<open>findiff.coefficients\<close>, a package outside the repository: it
  is the parameter \<open>findiff_forward\<close>. The odd branch is the table of the source;
  \<^verbatim>\<open>coeffs\<close> stays \<^verbatim>\<open>None\<close> when no entry matches. Python's \<^verbatim>\<open>%\<close> with a positive
  divisor agrees with \<open>mod\<close> on \<^typ>\<open>int\<close>.
\<close>

definition get_finite_difference_coefficients ::
  "(int \<Rightarrow> int \<Rightarrow> error + vector) \<Rightarrow> int \<Rightarrow> int \<Rightarrow> error + vector" where
  "get_finite_difference_coefficients findiff_forward deriv_order accuracy_order =
     (if deriv_order = 0 then Inr [1]
      else if accuracy_order mod 2 = 0 then findiff_forward deriv_order accuracy_order
      else
        (let coeffs =
           (if accuracy_order = 1 then
              (if deriv_order = 1 then Some [-1, 1]
               else if deriv_order = 2 then Some [1, -2, 1]
               else None)
            else if accuracy_order = 3 then
              (if deriv_order = 1 then Some [-11/6, 3, -3/2, 1/3] else None)
            else if accuracy_order = 5 then
              (if deriv_order = 1 then Some [-137/60, 5, -5, 10/3, -5/4, 1/5] else None)
            else None)
         in case coeffs of
              None \<Rightarrow> Inl NotImplementedError
            | Some c \<Rightarrow> Inr c))"

section \<open>Range of a derivative term\<close>

text \<open>
  \<^verbatim>\<open>get_deriv_range(deriv_ind, point_ind, last_point_ind, max_considered_accuracy)\<close>
  returns \<^verbatim>\<open>(deriv_order, selected_accuracy, length, last_scheme_ind_global)\<close>.
\<close>

definition get_deriv_range :: "int \<Rightarrow> int \<Rightarrow> int \<Rightarrow> int \<Rightarrow> int \<times> int \<times> int \<times> int" where
  "get_deriv_range deriv_ind point_ind last_point_ind max_considered_accuracy =
     (let deriv_order = deriv_ind - 1;
          selected_accuracy =
            (if deriv_order = 0 then 1
             else (let max_possible_accuracy = last_point_ind - point_ind - deriv_order + 1
                   in min max_considered_accuracy max_possible_accuracy));
          length = deriv_order + selected_accuracy;
          last_scheme_ind_global = point_ind + length - 1
      in (deriv_order, selected_accuracy, length, last_scheme_ind_global))"

definition accuracy_of :: "int \<times> int \<times> int \<times> int \<Rightarrow> int" where
  "accuracy_of r = fst (snd r)"

section \<open>Fixed point discretization\<close>

text \<open>
  \<^verbatim>\<open>range(a, b)\<close> with the default step 1 is the list of the integers from \<open>a\<close> up to
  \<open>b - 1\<close>. \<^verbatim>\<open>2 ** k\<close> for a Python integer \<open>k\<close> is the integer \<open>2 ^ k\<close> when \<open>k\<close> is
  not negative and the float \<open>1 / 2 ^ (- k)\<close> otherwise, which is \<open>2 powi k\<close>.
\<close>

definition py_range2 :: "int \<Rightarrow> int \<Rightarrow> int list" where
  "py_range2 a b = [a .. b - 1]"

text \<open>
  \<^verbatim>\<open>np.reshape(xs, (r, c))\<close> of a flat list: row \<open>i\<close> is the \<open>i\<close>-th run of \<open>c\<close>
  elements; NumPy raises \<^verbatim>\<open>ValueError\<close> when the sizes do not fit.
\<close>

definition np_reshape :: "'a list \<Rightarrow> nat \<Rightarrow> nat \<Rightarrow> error + 'a list list" where
  "np_reshape xs r c =
     (if length xs = r * c then Inr (map (\<lambda>i. take c (drop (i * c) xs)) [0..<r])
      else Inl ValueError)"

definition build_discretization_matrix :: "int \<Rightarrow> int \<Rightarrow> error + matrix" where
  "build_discretization_matrix qbits_integer qbits_decimal =
     (let j_range = py_range2 (- qbits_integer + 1) (qbits_decimal + 1)
      in np_reshape [2 powi (- (j1 + j2)). j1 \<leftarrow> j_range, j2 \<leftarrow> j_range]
           (length j_range) (length j_range))"

definition build_discretization_vector :: "int \<Rightarrow> int \<Rightarrow> vector" where
  "build_discretization_vector qbits_integer qbits_decimal =
     (let j_range = py_range2 (- qbits_integer + 1) (qbits_decimal + 1)
      in [2 powi (- j). j \<leftarrow> j_range])"

section \<open>NumPy operations used by the QUBO builder\<close>

text \<open>
  A two-dimensional array is the list of its rows; an array without rows has no columns.
  \<^verbatim>\<open>a + b\<close> on two-dimensional arrays broadcasts: in each dimension the sizes are equal
  or one of them is 1 (that operand is repeated), otherwise NumPy raises
  \<^verbatim>\<open>ValueError\<close>.
\<close>

definition shape :: "matrix \<Rightarrow> nat \<times> nat" where
  "shape m = (length m, if m = [] then 0 else length (hd m))"

definition np_add :: "matrix \<Rightarrow> matrix \<Rightarrow> error + matrix" where
  "np_add a b =
     (let (ra, ca) = shape a; (rb, cb) = shape b in
      if (ra = rb \<or> ra = 1 \<or> rb = 1) \<and> (ca = cb \<or> ca = 1 \<or> cb = 1) then
        Inr (map (\<lambda>i. map (\<lambda>j. a ! (if ra = 1 then 0 else i) ! (if ca = 1 then 0 else j)
                                + b ! (if rb = 1 then 0 else i) ! (if cb = 1 then 0 else j))
                      [0..<(if ca = 1 then cb else ca)])
               [0..<(if ra = 1 then rb else ra)])
      else Inl ValueError)"

text \<open>
  \<^verbatim>\<open>np.diag(v, k)\<close>: the square array of size \<open>len(v) + |k|\<close> with \<open>v\<close> on the
  \<open>k\<close>-th diagonal (above the main diagonal for positive \<open>k\<close>) and 0 elsewhere.
\<close>

definition np_diag :: "vector \<Rightarrow> int \<Rightarrow> matrix" where
  "np_diag v k =
     (let n = length v + nat \<bar>k\<bar> in
      map (\<lambda>i. map (\<lambda>j. if int j - int i = k then v ! (if 0 \<le> k then i else j) else 0)
                  [0..<n])
          [0..<n])"

text \<open>\<^verbatim>\<open>H[-1, -1] = v\<close>: \<^verbatim>\<open>IndexError\<close> on an array with no row or no column.\<close>

definition set_corner :: "matrix \<Rightarrow> real \<Rightarrow> error + matrix" where
  "set_corner H v =
     (if H = [] \<or> last H = [] then Inl IndexError
      else Inr (butlast H @ [butlast (last H) @ [v]]))"

text \<open>
  \<^verbatim>\<open>np.block\<close> of a list of lists of two-dimensional blocks of one shape: the blocks of
  an inner list are put side by side, the results one below the other. On a list of
  one-dimensional arrays \<^verbatim>\<open>np.block\<close> is the concatenation, written \<open>concat\<close> below.
\<close>

definition np_hstack :: "matrix list \<Rightarrow> matrix" where
  "np_hstack bs =
     (case bs of [] \<Rightarrow> [] | b # _ \<Rightarrow> map (\<lambda>k. concat (map (\<lambda>B. B ! k) bs)) [0..<length b])"

definition np_block2 :: "matrix list list \<Rightarrow> matrix" where
  "np_block2 bss = concat (map np_hstack bss)"

section \<open>The continuous quadratic form of a block and its QUBO matrix\<close>

text \<open>
  \<^verbatim>\<open>build_quadratic_minimization_matrix(npoints, dx)\<close>. \<^verbatim>\<open>[2] * k\<close> is the empty list
  for \<open>k \<le> 0\<close>. The division by \<^verbatim>\<open>dx ** 2\<close> is the real division: the model follows the
  code for \<open>dx \<noteq> 0\<close> (NumPy yields \<^verbatim>\<open>inf\<close> or \<^verbatim>\<open>nan\<close> where HOL yields 0).
\<close>

definition build_quadratic_minimization_matrix :: "int \<Rightarrow> real \<Rightarrow> error + matrix" where
  "build_quadratic_minimization_matrix npoints dx =
     bind_err (np_add (np_diag (replicate (nat (npoints - 1)) 2) 0)
                      (np_diag (replicate (nat (npoints - 2)) (- 1)) 1)) (\<lambda>H1.
     bind_err (np_add H1 (np_diag (replicate (nat (npoints - 2)) (- 1)) (- 1))) (\<lambda>H2.
     bind_err (set_corner H2 1) (\<lambda>H.
     Inr (map (map (\<lambda>x. x / dx ^ 2)) H))))"

text \<open>
  \<^verbatim>\<open>build_quadratic_minimization_vector(f, dx, y1)\<close>. \<^verbatim>\<open>f[0:-1]\<close> is \<open>butlast f\<close> and
  \<^verbatim>\<open>f[1:-1]\<close> is \<open>butlast (tl f)\<close>; the two sides of \<^verbatim>\<open>d[0:-1] += f[1:-1]\<close> have the same
  length for every \<open>f\<close>. \<^verbatim>\<open>d[0] -= y1 / dx\<close> raises \<^verbatim>\<open>IndexError\<close> on an empty \<open>d\<close>.
\<close>

definition build_quadratic_minimization_vector :: "vector \<Rightarrow> real \<Rightarrow> real \<Rightarrow> error + vector" where
  "build_quadratic_minimization_vector f dx y1 =
     (let d0 = map uminus (butlast f);
          d = map2 (+) (butlast d0) (butlast (tl f)) @ drop (length d0 - 1) d0
      in if d = [] then Inl IndexError
         else Inr (map (\<lambda>x. x * 2 / dx) (d[0 := d ! 0 - y1 / dx])))"

text \<open>\<^verbatim>\<open>build_qubo_matrix(f, dx, y1, H_discret_elem, d_discret_elem, signed)\<close>.\<close>

definition build_qubo_matrix ::
  "vector \<Rightarrow> real \<Rightarrow> real \<Rightarrow> matrix \<Rightarrow> vector \<Rightarrow> bool \<Rightarrow> error + matrix" where
  "build_qubo_matrix f dx y1 H_discret_elem d_discret_elem signed =
     bind_err (build_quadratic_minimization_matrix (int (length f)) dx) (\<lambda>H_cont.
     bind_err (build_quadratic_minimization_vector f dx y1) (\<lambda>d_cont0.
     bind_err (if signed then
                 (if d_discret_elem = [] then Inl IndexError
                  else Inr (d_cont0[0 := d_cont0 ! 0 - 2 * d_discret_elem ! 0 / dx ^ 2]))
               else Inr d_cont0) (\<lambda>d_cont.
     let H_bin = np_block2 (map (map (\<lambda>val. map (map (\<lambda>x. x * val)) H_discret_elem)) H_cont);
         d_bin = concat (map (\<lambda>val. map (\<lambda>x. x * val) d_discret_elem) d_cont)
     in np_add H_bin (np_diag d_bin 0))))"

section \<open>The block solver loop\<close>

text \<open>
  \<^verbatim>\<open>range(start, stop, step)\<close>: \<^verbatim>\<open>ValueError\<close> for step 0, otherwise the values
  \<open>start + k * step\<close> that lie before \<open>stop\<close> in the direction of the step.
\<close>

definition py_range3 :: "int \<Rightarrow> int \<Rightarrow> int \<Rightarrow> error + int list" where
  "py_range3 start stop step =
     (if step = 0 then Inl ValueError
      else if 0 < step then
        Inr (map (\<lambda>k. start + int k * step) [0..<nat ((stop - start + step - 1) div step)])
      else
        Inr (map (\<lambda>k. start + int k * step) [0..<nat ((start - stop - step - 1) div (- step))]))"

text \<open>
  One record of the sample set that the external sampler returns: the values of the binary
  variables, the energy and the number of occurrences. The sampler
  \<^verbatim>\<open>QBSolv().sample_qubo\<close> is outside the repository and a randomised heuristic: it is a
  parameter that maps the loop index of the call and the matrix to the list of records, in
  the order in which the sample set yields them, or to \<open>None\<close> when it raises.
\<close>

record sample =
  sample_values :: "real list"
  energy :: real
  num_occurrences :: nat

type_synonym sampler = "nat \<Rightarrow> matrix \<Rightarrow> sample list option"

text \<open>
  Lines 286 to 288 of \<^verbatim>\<open>solve\<close>: \<^verbatim>\<open>np.array\<close> of the value lists needs lists of one
  length; \<^verbatim>\<open>reshape((S, -1, nb))\<close> raises \<^verbatim>\<open>ValueError\<close> when \<open>S * nb\<close> is 0 or
  does not divide the size; the sum over the last axis weights the \<open>nb\<close> bits of each
  point with \<^verbatim>\<open>d_discret_elem\<close>.
\<close>

definition samples_cont_of :: "sample list \<Rightarrow> vector \<Rightarrow> error + matrix" where
  "samples_cont_of sample_set d_discret_elem =
     (let S = length sample_set; nb = length d_discret_elem in
      if S = 0 \<or> nb = 0 then Inl ValueError
      else
        (let L = length (sample_values (hd sample_set)) in
         if list_ex (\<lambda>s. length (sample_values s) \<noteq> L) sample_set then Inl ValueError
         else if L mod nb \<noteq> 0 then Inl ValueError
         else Inr (map (\<lambda>s. map (\<lambda>p. sum_list (map2 (*) (take nb (drop (p * nb) (sample_values s)))
                                                      d_discret_elem))
                                  [0..<L div nb])
                       sample_set)))"

text \<open>
  \<^verbatim>\<open>solution[i:next_i] = values\<close> on an array of optional entries, \<open>None\<close> being an
  entry that \<^verbatim>\<open>np.empty\<close> left uninitialised. The bounds of a slice are clipped to the
  array; the right side has the length of the slice or length 1 (it is then repeated),
  otherwise NumPy raises \<^verbatim>\<open>ValueError\<close>.
\<close>

definition assign_slice ::
  "real option list \<Rightarrow> nat \<Rightarrow> nat \<Rightarrow> vector \<Rightarrow> error + real option list" where
  "assign_slice solution i next_i vals =
     (let lo = min i (length solution);
          hi = max lo (min next_i (length solution))
      in if length vals = hi - lo then
           Inr (take lo solution @ map Some vals @ drop hi solution)
         else if length vals = 1 then
           Inr (take lo solution @ replicate (hi - lo) (Some (hd vals)) @ drop hi solution)
         else Inl ValueError)"

text \<open>Lines 289 to 292: the constant that the quadratic form of the block drops.\<close>

definition error_shift_of :: "vector \<Rightarrow> real \<Rightarrow> real \<Rightarrow> int \<Rightarrow> bool \<Rightarrow> real" where
  "error_shift_of next_f dx y1 qbits_integer signed =
     (let error_shift = (y1 ^ 2 + 2 * y1 * next_f ! 0 * dx) / dx ^ 2
                          + sum_list (map (\<lambda>x. x ^ 2) (butlast next_f))
      in if signed then
           error_shift + (4 powi (qbits_integer - 1)
                            + 2 powi qbits_integer * (y1 + next_f ! 0 * dx)) / dx ^ 2
         else error_shift)"

text \<open>
  Lines 294 to 302: the values written to the slice of the solution and the energy that
  enters the error, from the sample set and the decoded samples (one row per record). With
  \<^verbatim>\<open>average_solutions\<close> the records are weighted by their share of the occurrences,
  otherwise the first record is taken.
\<close>

definition aggregate_samples :: "bool \<Rightarrow> sample list \<Rightarrow> matrix \<Rightarrow> vector \<times> real" where
  "aggregate_samples average_solutions sample_set samples_cont =
     (if average_solutions then
        (let weights = map (\<lambda>s. real (num_occurrences s)
                                   / real (sum_list (map num_occurrences sample_set))) sample_set
         in (map (\<lambda>p. sum_list (map2 (\<lambda>row w. row ! p * w) samples_cont weights))
                 [0..<length (hd samples_cont)],
             sum_list (map2 (\<lambda>s w. energy s * w) sample_set weights)))
      else (hd samples_cont, energy (hd sample_set)))"

text \<open>
  The body of the loop of \<^verbatim>\<open>solve\<close> for the index \<open>i\<close>, on the state
  \<open>(solution, error)\<close>. \<open>garbage\<close> is the content \<^verbatim>\<open>np.empty\<close> left in the array: what a
  read of an entry that was never assigned yields. \<^verbatim>\<open>next_f[0]\<close> is read after
  \<^verbatim>\<open>build_qubo_matrix\<close> has returned, so \<open>next_f\<close> is not empty there.
\<close>

definition solve_block ::
  "vector \<Rightarrow> real \<Rightarrow> int \<Rightarrow> bool \<Rightarrow> int \<Rightarrow> bool \<Rightarrow> sampler \<Rightarrow> (nat \<Rightarrow> real) \<Rightarrow> matrix \<Rightarrow> vector
     \<Rightarrow> real option list \<times> real \<Rightarrow> nat \<Rightarrow> error + real option list \<times> real" where
  "solve_block f dx qbits_integer signed points_per_qubo average_solutions sample_qubo garbage
       H_discret_elem d_discret_elem state i =
     (let (solution, error) = state;
          y1 = (case solution ! (i - 1) of Some v \<Rightarrow> v | None \<Rightarrow> garbage (i - 1));
          next_i = min (i + nat points_per_qubo) (length f);
          next_f = take (next_i - (i - 1)) (drop (i - 1) f)
      in bind_err (build_qubo_matrix next_f dx y1 H_discret_elem d_discret_elem signed) (\<lambda>Q.
         case sample_qubo i Q of
           None \<Rightarrow> Inl SamplerError
         | Some sample_set \<Rightarrow>
         bind_err (samples_cont_of sample_set d_discret_elem) (\<lambda>samples_cont0.
         let error_shift = error_shift_of next_f dx y1 qbits_integer signed;
             samples_cont =
               (if signed then map (map (\<lambda>x. x - 2 powi (qbits_integer - 1))) samples_cont0
                else samples_cont0);
             (new_values, solution_energy) =
               aggregate_samples average_solutions sample_set samples_cont
         in bind_err (assign_slice solution i next_i new_values) (\<lambda>solution'.
            Inr (solution', error + solution_energy + error_shift)))))"

text \<open>The loop: the body is run for each index in turn, the first exception ends it.\<close>

fun fold_err :: "('s \<Rightarrow> 'a \<Rightarrow> error + 's) \<Rightarrow> 'a list \<Rightarrow> 's \<Rightarrow> error + 's" where
  "fold_err step [] s = Inr s"
| "fold_err step (x # xs) s = bind_err (step s x) (fold_err step xs)"

text \<open>
  \<^verbatim>\<open>solve(f, dx, y1, qbits_integer, qbits_decimal, signed, points_per_qubo,
  average_solutions)\<close> with the sampler and the content of the fresh array as further
  parameters. It returns the solution array and the accumulated error.
\<close>

definition solve ::
  "vector \<Rightarrow> real \<Rightarrow> real \<Rightarrow> int \<Rightarrow> int \<Rightarrow> bool \<Rightarrow> int \<Rightarrow> bool \<Rightarrow> sampler \<Rightarrow> (nat \<Rightarrow> real)
     \<Rightarrow> error + real option list \<times> real" where
  "solve f dx y1 qbits_integer qbits_decimal signed points_per_qubo average_solutions
       sample_qubo garbage =
     (let solution0 = replicate (length f) None in
      if solution0 = [] then Inl IndexError
      else
        (let solution = solution0[0 := Some y1] in
         bind_err (build_discretization_matrix qbits_integer qbits_decimal) (\<lambda>H_discret_elem.
         let d_discret_elem = build_discretization_vector qbits_integer qbits_decimal in
         bind_err (py_range3 1 (int (length f)) points_per_qubo) (\<lambda>indices.
         fold_err (solve_block f dx qbits_integer signed points_per_qubo average_solutions
                     sample_qubo garbage H_discret_elem d_discret_elem)
                  (map nat indices) (solution, 0)))))"

section \<open>The general assembler\<close>

text \<open>
  Reading \<^verbatim>\<open>xs[i]\<close> and updating \<^verbatim>\<open>xs[i] += v\<close> and \<^verbatim>\<open>H[i, j] += v\<close> with an integer
  index: a negative index counts from the end, an index outside the array raises
  \<^verbatim>\<open>IndexError\<close>.
\<close>

definition py_get :: "'a list \<Rightarrow> int \<Rightarrow> error + 'a" where
  "py_get xs i =
     (let n = int (length xs); j = (if i < 0 then n + i else i)
      in if 0 \<le> j \<and> j < n then Inr (xs ! nat j) else Inl IndexError)"

definition add_at :: "vector \<Rightarrow> int \<Rightarrow> real \<Rightarrow> error + vector" where
  "add_at d i v =
     (let n = int (length d); j = (if i < 0 then n + i else i)
      in if 0 \<le> j \<and> j < n then Inr (d[nat j := d ! nat j + v]) else Inl IndexError)"

definition add_at2 :: "matrix \<Rightarrow> int \<Rightarrow> int \<Rightarrow> real \<Rightarrow> error + matrix" where
  "add_at2 H i j v =
     (let n = int (length H); k = (if i < 0 then n + i else i)
      in if 0 \<le> k \<and> k < n then
           bind_err (add_at (H ! nat k) j v) (\<lambda>row. Inr (H[nat k := row]))
         else Inl IndexError)"

text \<open>
  \<^verbatim>\<open>add_linear_terms(d, point_ind, last_unknown_ind_global, funcs, dx, known_points,
  max_considered_accuracy)\<close>. The array \<open>d\<close> that the source updates in place is passed
  in and returned. \<^verbatim>\<open>dx ** k\<close> for an integer \<open>k\<close> is \<open>dx powi k\<close>.
\<close>

definition add_linear_terms ::
  "(int \<Rightarrow> int \<Rightarrow> error + vector) \<Rightarrow> vector \<Rightarrow> int \<Rightarrow> int \<Rightarrow> matrix \<Rightarrow> real \<Rightarrow> vector \<Rightarrow> int
     \<Rightarrow> error + vector" where
  "add_linear_terms findiff_forward d point_ind last_unknown_ind_global funcs dx known_points
       max_considered_accuracy =
     (let first_unknown_ind_global = int (length known_points) in
      fold_err (\<lambda>d deriv_ind.
          let (deriv_order, accuracy_order, len, last_scheme_ind_global) =
                get_deriv_range deriv_ind point_ind last_unknown_ind_global
                  max_considered_accuracy
          in if last_scheme_ind_global < first_unknown_ind_global \<or> accuracy_order < 1 then Inr d
             else
               bind_err (get_finite_difference_coefficients findiff_forward deriv_order
                           accuracy_order) (\<lambda>coeffs.
               bind_err (py_get funcs 0) (\<lambda>row0.
               bind_err (py_get row0 point_ind) (\<lambda>f0.
               bind_err (py_get funcs deriv_ind) (\<lambda>rowk.
               bind_err (py_get rowk point_ind) (\<lambda>fk.
               let func_factor = 2 * f0 * fk / dx powi deriv_order in
               fold_err (\<lambda>d scheme_ind.
                   let unknown_ind = point_ind + scheme_ind - first_unknown_ind_global
                   in if unknown_ind < 0 then Inr d
                      else bind_err (py_get coeffs scheme_ind) (\<lambda>c.
                           add_at d unknown_ind (func_factor * c)))
                 (py_range2 0 len) d))))))
        (py_range2 1 (int (length funcs))) d)"

text \<open>
  \<^verbatim>\<open>add_quadratic_terms(H, d, point_ind, last_unknown_ind_global, funcs, dx,
  known_points, max_considered_accuracy)\<close>. Line 129 of the source binds the name
  \<^verbatim>\<open>first_unknown_index_global\<close>, the body below it reads the name
  \<^verbatim>\<open>first_unknown_ind_global\<close> (lines 137, 142, 144 and 153). The first parameter of
  the model is what the scope of the body binds to the name that is read: \<open>None\<close> when no
  scope binds it, and then the first read, in the condition of line 137, raises
  \<^verbatim>\<open>NameError\<close>. In \<^verbatim>\<open>A and B or C\<close> the operand \<open>A\<close> is evaluated first.
\<close>

definition add_quadratic_terms_in_scope ::
  "int option \<Rightarrow> (int \<Rightarrow> int \<Rightarrow> error + vector) \<Rightarrow> matrix \<times> vector \<Rightarrow> int \<Rightarrow> int \<Rightarrow> matrix
     \<Rightarrow> real \<Rightarrow> vector \<Rightarrow> int \<Rightarrow> error + matrix \<times> vector" where
  "add_quadratic_terms_in_scope scope findiff_forward state point_ind last_unknown_ind_global
       funcs dx known_points max_considered_accuracy =
     (let first_unknown_index_global = int (length known_points) in
      fold_err (\<lambda>state deriv_ind1.
          let (deriv_order1, accuracy_order1, length1, last_scheme_ind_global1) =
                get_deriv_range deriv_ind1 point_ind last_unknown_ind_global
                  max_considered_accuracy
          in if accuracy_order1 < 1 then Inr state
             else
               bind_err (get_finite_difference_coefficients findiff_forward deriv_order1
                           accuracy_order1) (\<lambda>coeffs1.
               fold_err (\<lambda>state deriv_ind2.
                   let (deriv_order2, accuracy_order2, length2, last_scheme_ind_global2) =
                         get_deriv_range deriv_ind2 point_ind last_unknown_ind_global
                           max_considered_accuracy
                   in case scope of
                        None \<Rightarrow> Inl NameError
                      | Some first_unknown_ind_global \<Rightarrow>
                   if last_scheme_ind_global1 < first_unknown_ind_global
                        \<and> last_scheme_ind_global2 < first_unknown_ind_global
                      \<or> accuracy_order2 < 1 then Inr state
                   else
                     bind_err (get_finite_difference_coefficients findiff_forward deriv_order2
                                 accuracy_order2) (\<lambda>coeffs2.
                     bind_err (py_get funcs deriv_ind1) (\<lambda>row1.
                     bind_err (py_get row1 point_ind) (\<lambda>f1.
                     bind_err (py_get funcs deriv_ind2) (\<lambda>row2.
                     bind_err (py_get row2 point_ind) (\<lambda>f2.
                     let func_factor = f1 * f2 / dx powi (deriv_order1 + deriv_order2) in
                     fold_err (\<lambda>state scheme_ind1.
                         let unknown_ind1 = point_ind + scheme_ind1 - first_unknown_ind_global in
                         fold_err (\<lambda>(H, d) scheme_ind2.
                             let unknown_ind2 = point_ind + scheme_ind2 - first_unknown_ind_global
                             in if unknown_ind1 < 0 \<and> unknown_ind2 < 0 then Inr (H, d)
                                else
                                  bind_err (py_get coeffs1 scheme_ind1) (\<lambda>c1.
                                  bind_err (py_get coeffs2 scheme_ind2) (\<lambda>c2.
                                  let h_factor = func_factor * c1 * c2 in
                                  if 0 \<le> unknown_ind1 \<and> 0 \<le> unknown_ind2 then
                                    bind_err (add_at2 H unknown_ind1 unknown_ind2 h_factor)
                                      (\<lambda>H'. Inr (H', d))
                                  else
                                    (let unknown_ind = max unknown_ind1 unknown_ind2;
                                         known_ind = min unknown_ind1 unknown_ind2
                                                       + first_unknown_ind_global
                                     in bind_err (py_get known_points known_ind) (\<lambda>known.
                                        bind_err (add_at d unknown_ind (h_factor * known))
                                          (\<lambda>d'. Inr (H, d')))))))
                           (py_range2 0 length2) state)
                       (py_range2 0 length1) state))))))
                 (py_range2 1 (int (length funcs))) state))
        (py_range2 1 (int (length funcs))) state)"

text \<open>
  The function of the source: its own scope binds \<^verbatim>\<open>first_unknown_index_global\<close> only
  and the module binds neither name.
\<close>

definition add_quadratic_terms ::
  "(int \<Rightarrow> int \<Rightarrow> error + vector) \<Rightarrow> matrix \<times> vector \<Rightarrow> int \<Rightarrow> int \<Rightarrow> matrix
     \<Rightarrow> real \<Rightarrow> vector \<Rightarrow> int \<Rightarrow> error + matrix \<times> vector" where
  "add_quadratic_terms = add_quadratic_terms_in_scope None"

text \<open>
  \<^verbatim>\<open>build_quadratic_minimization_matrices_general(funcs, dx, known_points,
  max_considered_accuracy, points_per_step)\<close>; \<^verbatim>\<open>funcs.shape[1]\<close> is the number of
  columns, and \<^verbatim>\<open>np.zeros\<close> raises \<^verbatim>\<open>ValueError\<close> for a negative size.
\<close>

definition build_quadratic_minimization_matrices_general ::
  "(int \<Rightarrow> int \<Rightarrow> error + vector) \<Rightarrow> matrix \<Rightarrow> real \<Rightarrow> vector \<Rightarrow> int \<Rightarrow> int
     \<Rightarrow> error + matrix \<times> vector" where
  "build_quadratic_minimization_matrices_general findiff_forward funcs dx known_points
       max_considered_accuracy points_per_step =
     (let first_unknown_ind_global = int (length known_points);
          unknowns = min points_per_step (int (snd (shape funcs)) - first_unknown_ind_global);
          last_unknown_ind_global = first_unknown_ind_global + unknowns - 1
      in if unknowns < 0 then Inl ValueError
         else
           fold_err (\<lambda>(H, d) point_ind.
               bind_err (add_linear_terms findiff_forward d point_ind last_unknown_ind_global
                           funcs dx known_points max_considered_accuracy) (\<lambda>d'.
               add_quadratic_terms findiff_forward (H, d') point_ind last_unknown_ind_global
                   funcs dx known_points max_considered_accuracy))
             (py_range2 0 (last_unknown_ind_global + 1))
             (replicate (nat unknowns) (replicate (nat unknowns) 0), replicate (nat unknowns) 0))"

section \<open>Matrices given by their entries\<close>

text \<open>
  The square matrix of size \<open>n\<close> with entry \<open>e i j\<close> at row \<open>i\<close> and column \<open>j\<close>; the results of
  the builders are brought into this form to read their entries off.
\<close>

definition mat_of :: "nat \<Rightarrow> (nat \<Rightarrow> nat \<Rightarrow> real) \<Rightarrow> matrix" where
  "mat_of n e = map (\<lambda>i. map (\<lambda>j. e i j) [0..<n]) [0..<n]"

text \<open>The entries of the continuous matrix before the division by \<open>dx\<^sup>2\<close>.\<close>

definition tridiag :: "nat \<Rightarrow> nat \<Rightarrow> nat \<Rightarrow> real" where
  "tridiag n i j =
     (if i = j then (if i = n - 1 then 1 else 2)
      else if j = i + 1 \<or> i = j + 1 then - 1 else 0)"


text \<open>
  The entries of the discretization matrix, the number of iterations of the loop of
  \<^verbatim>\<open>solve\<close> for a positive block size, and the invariant of that loop before its
  \<open>k\<close>-th iteration: the array has the length of \<open>f\<close>, every entry before the index of
  the iteration is assigned and entry 0 holds the boundary value.
\<close>

definition discret_entry :: "int \<Rightarrow> int \<Rightarrow> nat \<Rightarrow> nat \<Rightarrow> real" where
  "discret_entry qi qd a b =
     2 powi (- (py_range2 (- qi + 1) (qd + 1) ! a + py_range2 (- qi + 1) (qd + 1) ! b))"


definition block_count :: "nat \<Rightarrow> int \<Rightarrow> nat" where
  "block_count n ppq = (n - 1 + nat ppq - 1) div nat ppq"


definition solved_up_to :: "nat \<Rightarrow> real \<Rightarrow> nat \<Rightarrow> nat \<Rightarrow> real option list \<times> real \<Rightarrow> bool" where
  "solved_up_to n y1 p k state \<longleftrightarrow>
     length (fst state) = n \<and> (\<forall>j < min (1 + k * p) n. fst state ! j \<noteq> None)
     \<and> fst state ! 0 = Some y1"

section \<open>Stand-ins for the external collaborators\<close>

text \<open>
  Two stand-ins for the external generator, used at concrete inputs only: one that is
  absent (every call raises) and one that knows the forward schemes of accuracy 2 for the
  first and the second derivative.
\<close>

definition findiff_absent :: "int \<Rightarrow> int \<Rightarrow> error + vector" where
  "findiff_absent d a = Inl FindiffError"


text \<open>
  A stand-in for the sampler, used at concrete inputs only: it answers every matrix with
  one record that sets every binary variable to 1, with energy 0, found once.
\<close>

definition all_ones_sampler :: sampler where
  "all_ones_sampler i Q = Some [\<lparr>sample_values = replicate (length Q) 1, energy = 0,
                                  num_occurrences = 1\<rparr>]"

section \<open>Auxiliary facts\<close>

lemma length_py_range2: "length (py_range2 a b) = nat (b - a)"
  by (simp add: py_range2_def)

lemma nth_py_range2: "k < nat (b - a) \<Longrightarrow> py_range2 a b ! k = a + int k"
  by (simp add: py_range2_def)

lemma length_concat_const:
  "(\<And>x. x \<in> set xs \<Longrightarrow> length (f x) = c) \<Longrightarrow> length (concat (map f xs)) = length xs * c"
  by (induction xs) simp_all

lemma drop_concat_const:
  "(\<And>x. x \<in> set xs \<Longrightarrow> length (f x) = c) \<Longrightarrow> i \<le> length xs \<Longrightarrow>
   drop (i * c) (concat (map f xs)) = concat (map f (drop i xs))"
proof (induction xs arbitrary: i)
  case Nil
  then show ?case by simp
next
  case (Cons x xs)
  show ?case
  proof (cases i)
    case 0
    then show ?thesis by simp
  next
    case (Suc k)
    have "drop (c + k * c) (f x @ concat (map f xs)) = drop (k * c) (concat (map f xs))"
      using Cons.prems(1) [of x] by simp
    with Cons Suc show ?thesis by simp
  qed
qed

lemma reshape_row:
  assumes "\<And>x. x \<in> set xs \<Longrightarrow> length (f x) = c" and "i < length xs"
  shows "take c (drop (i * c) (concat (map f xs))) = f (xs ! i)"
proof -
  have "drop (i * c) (concat (map f xs)) = concat (map f (drop i xs))"
    using assms by (intro drop_concat_const) simp_all
  also have "drop i xs = xs ! i # drop (Suc i) xs"
    using assms(2) by (simp add: Cons_nth_drop_Suc)
  finally show ?thesis
    using assms(1) [of "xs ! i"] assms(2) by simp
qed

lemma np_reshape_concat:
  assumes "\<And>x. x \<in> set xs \<Longrightarrow> length (f x) = c"
  shows "np_reshape (concat (map f xs)) (length xs) c = Inr (map f xs)"
proof -
  have "map (\<lambda>i. take c (drop (i * c) (concat (map f xs)))) [0..<length xs] = map f xs"
    using assms by (intro nth_equalityI) (simp_all add: reshape_row)
  then show ?thesis
    using assms by (simp add: np_reshape_def length_concat_const)
qed

lemma build_discretization_matrix_rows:
  "build_discretization_matrix qi qd =
     Inr (map (\<lambda>j1. map (\<lambda>j2. 2 powi (- (j1 + j2))) (py_range2 (- qi + 1) (qd + 1)))
            (py_range2 (- qi + 1) (qd + 1)))"
  unfolding build_discretization_matrix_def Let_def
  by (rule np_reshape_concat) simp

section \<open>Claims on the stencil library and the range selector\<close>

text \<open>
  C7. For an odd accuracy order and a derivative order of at least 1, every combination
  other than (1,1), (2,1), (1,3) and (1,5) (derivative order first) makes
  \<^verbatim>\<open>get_finite_difference_coefficients\<close> raise: the result is the exception
  \<^verbatim>\<open>NotImplementedError\<close> (the spec's UnsupportedSchemeError), whatever the external
  generator of even schemes would do, so no coefficients of another order are returned.
\<close>

theorem unsupported_odd_scheme_raises:
  assumes "accuracy_order mod 2 = 1" and "1 \<le> deriv_order"
    and "(deriv_order, accuracy_order) \<notin> {(1, 1), (2, 1), (1, 3), (1, 5)}"
  shows "get_finite_difference_coefficients findiff_forward deriv_order accuracy_order
           = Inl NotImplementedError"
  using assms by (auto simp: get_finite_difference_coefficients_def)

theorem unsupported_odd_scheme_raises_witness:
  "(3::int) mod 2 = 1 \<and> (1::int) \<le> 2 \<and> ((2::int), (3::int)) \<notin> {(1, 1), (2, 1), (1, 3), (1, 5)}
   \<and> get_finite_difference_coefficients (\<lambda>d a. Inr [0, 0, 0, 0, 0]) 2 3 = Inl NotImplementedError"
  using unsupported_odd_scheme_raises [of 3 2 "\<lambda>d a. Inr [0, 0, 0, 0, 0]"] by simp







text \<open>
  C3, as stated, fails: the term of derivative order 0 (term index 1) always gets
  accuracy order 1, also at a point behind the last unknown index, where fewer than 0
  points remain. At term index 1, point 1, last unknown index 0 the accuracy is 1 although
  \<open>0 - 1 < 0\<close>.
\<close>

theorem deriv_range_accuracy_counterexample:
  "\<not> (accuracy_of (get_deriv_range 1 1 0 1) < 1 \<longleftrightarrow> (0::int) - 1 < 1 - 1)"
  by (simp add: get_deriv_range_def accuracy_of_def)

text \<open>
  C3, amended. For a term index of at least 1 and a maximal accuracy of at least 1, whenever
  the derivative order \<open>term_index - 1\<close> is at least 1 or the point is not behind the last
  unknown index, \<^verbatim>\<open>get_deriv_range\<close> returns that derivative order and an accuracy
  order below 1 exactly when \<open>last_unknown_index - point_index < deriv_order\<close>; and for
  derivative order 0 the accuracy order is 1 for all indices.
\<close>

theorem deriv_range_accuracy:
  assumes "1 \<le> term_index" and "1 \<le> max_considered_accuracy"
    and "term_index = 1 \<longrightarrow> point_index \<le> last_unknown_index"
  shows "fst (get_deriv_range term_index point_index last_unknown_index max_considered_accuracy)
           = term_index - 1
         \<and> (accuracy_of (get_deriv_range term_index point_index last_unknown_index
                           max_considered_accuracy) < 1
              \<longleftrightarrow> last_unknown_index - point_index < term_index - 1)
         \<and> (term_index - 1 = 0 \<longrightarrow>
              accuracy_of (get_deriv_range term_index p l max_considered_accuracy) = 1)"
  using assms by (auto simp: get_deriv_range_def accuracy_of_def Let_def)

theorem deriv_range_accuracy_witness:
  "(1::int) \<le> 3 \<and> (1::int) \<le> 2 \<and> (3::int) \<noteq> 1 \<and> (4::int) \<le> 5
   \<and> get_deriv_range 3 4 5 2 = (2, 0, 2, 5)
   \<and> (accuracy_of (get_deriv_range 3 4 5 2) < 1 \<longleftrightarrow> (5::int) - 4 < 3 - 1)
   \<and> accuracy_of (get_deriv_range 1 7 0 2) = 1"
  using deriv_range_accuracy [of 3 2 4 5]  deriv_range_accuracy [of 1 2 0 0 7 0]
  by (simp add: get_deriv_range_def accuracy_of_def)

section \<open>Claims on the discretization element\<close>

lemma powi_outer: "(2::real) powi (- (i + j)) = 2 powi (- i) * 2 powi (- j)"
  using power_int_add [of "2::real" "- i" "- j"] by simp

lemma upto_m1_1: "[-1 .. (1::int)] = [-1, 0, 1]"
  by (simp add: upto_rec1 [of "-1" 1] upto_rec1 [of 0 1] upto_rec1[of 1 1])

lemma build_discretization_vector_2_1: "build_discretization_vector 2 1 = [2, 1, 1/2]"
  by (simp add: build_discretization_vector_def py_range2_def upto_m1_1)

lemma build_discretization_matrix_2_1: "build_discretization_matrix 2 1 = Inr [[4, 2, 1], [2, 1, 1/2], [1, 1/2, 1/4]]"
  by (simp add: build_discretization_matrix_rows py_range2_def upto_m1_1)


lemma length_j_range [simp]: "length (py_range2 (1 - qi) (qd + 1)) = nat (qi + qd)"
proof -
  have "qd + 1 - (1 - qi) = qi + qd" by simp
  then show ?thesis by (simp only: length_py_range2)
qed

lemma nth_j_range [simp]:
  assumes "k < nat (qi + qd)"
  shows "py_range2 (1 - qi) (qd + 1) ! k = 1 - qi + int k"
proof -
  have "qd + 1 - (1 - qi) = qi + qd" by simp
  with assms have "k < nat (qd + 1 - (1 - qi))" by (simp only:)
  then show ?thesis by (rule nth_py_range2)
qed

lemma length_build_discretization_vector:
  "length (build_discretization_vector qi qd) = nat (qi + qd)"
  by (simp add: build_discretization_vector_def)

lemma nth_build_discretization_vector:
  "k < nat (qi + qd) \<Longrightarrow> build_discretization_vector qi qd ! k = 2 powi (- (- qi + 1 + int k))"
  by (simp add: build_discretization_vector_def)

lemma last_j_range:
  assumes "0 \<le> qi" and "0 \<le> qd"
  shows "last (- qi # py_range2 (- qi + 1) (qd + 1)) = qd"
proof (cases "nat (qi + qd) = 0")
  case True
  with assms have "qi = 0" "qd = 0" by simp_all
  then show ?thesis by (simp add: py_range2_def)
next
  case False
  let ?r = "py_range2 (- qi + 1) (qd + 1)"
  have len: "length ?r = nat (qi + qd)" by simp
  with False have ne: "?r \<noteq> []" by (metis length_0_conv)
  then have "last (- qi # ?r) = ?r ! (nat (qi + qd) - 1)"
    using len by (simp add: last_conv_nth del: length_j_range)
  also have "\<dots> = 1 - qi + int (nat (qi + qd) - 1)"
    using False by simp
  also have "\<dots> = qd"
    using False assms by simp
  finally show ?thesis .
qed

text \<open>
  C5. For non-negative bit counts the discretization vector has
  \<open>qbits_integer + qbits_decimal\<close> entries, entry \<open>k\<close> being \<open>2\<close> to the power \<open>- j\<close> for
  the \<open>k\<close>-th exponent \<open>j = - qbits_integer + 1 + k\<close> of the range that ends at
  \<open>qbits_decimal\<close>; the discretization matrix is built without an exception, is square of
  the same size, and its entry \<open>(a, b)\<close> is \<open>2\<close> to the power \<open>- (j\<^sub>a + j\<^sub>b)\<close>, the product
  of the entries \<open>a\<close> and \<open>b\<close> of the vector.
\<close>

theorem discretization_outer_product:
  assumes "0 \<le> qbits_integer" and "0 \<le> qbits_decimal"
  shows "\<exists>H. build_discretization_matrix qbits_integer qbits_decimal = Inr H
           \<and> length (build_discretization_vector qbits_integer qbits_decimal)
               = nat (qbits_integer + qbits_decimal)
           \<and> last (- qbits_integer # py_range2 (- qbits_integer + 1) (qbits_decimal + 1))
               = qbits_decimal
           \<and> length H = nat (qbits_integer + qbits_decimal)
           \<and> (\<forall>a < nat (qbits_integer + qbits_decimal).
                 build_discretization_vector qbits_integer qbits_decimal ! a
                   = 2 powi (- (- qbits_integer + 1 + int a))
                 \<and> length (H ! a) = nat (qbits_integer + qbits_decimal)
                 \<and> (\<forall>b < nat (qbits_integer + qbits_decimal).
                       H ! a ! b = 2 powi (- ((- qbits_integer + 1 + int a)
                                              + (- qbits_integer + 1 + int b)))
                       \<and> H ! a ! b
                           = build_discretization_vector qbits_integer qbits_decimal ! a
                             * build_discretization_vector qbits_integer qbits_decimal ! b))"
proof -
  let ?n = "nat (qbits_integer + qbits_decimal)"
  let ?r = "py_range2 (- qbits_integer + 1) (qbits_decimal + 1)"
  let ?H = "map (\<lambda>j1. map (\<lambda>j2. (2::real) powi (- (j1 + j2))) ?r) ?r"
  let ?d = "build_discretization_vector qbits_integer qbits_decimal"
  have H: "build_discretization_matrix qbits_integer qbits_decimal = Inr ?H"
    by (rule build_discretization_matrix_rows)
  have lenH: "length ?H = ?n"
    by simp
  have row: "length (?H ! a) = ?n" if "a < ?n" for a
    using that by simp
  have entry: "?H ! a ! b = 2 powi (- ((- qbits_integer + 1 + int a)
                                        + (- qbits_integer + 1 + int b)))"
    if "a < ?n" "b < ?n" for a b
  proof -
    have "?H ! a ! b = 2 powi (- ((1 - qbits_integer + int a) + (1 - qbits_integer + int b)))"
      using that by (simp del: minus_add_distrib)
    also have "- ((1 - qbits_integer + int a) + (1 - qbits_integer + int b))
                 = - ((- qbits_integer + 1 + int a) + (- qbits_integer + 1 + int b))"
      by simp
    finally show ?thesis .
  qed
  have outer: "?H ! a ! b = ?d ! a * ?d ! b" if "a < ?n" "b < ?n" for a b
    unfolding entry [OF that] nth_build_discretization_vector [OF that(1)]
      nth_build_discretization_vector [OF that(2)]
    by (rule powi_outer)
  show ?thesis
    using H lenH row entry outer length_build_discretization_vector [of qbits_integer qbits_decimal]
      nth_build_discretization_vector [of _ qbits_integer qbits_decimal]
      last_j_range [OF assms]
    by (intro exI [of _ ?H]) blast
qed

theorem discretization_outer_product_witness:
  "(0::int) \<le> 2 \<and> (0::int) \<le> 1
   \<and> build_discretization_vector 2 1 = [2, 1, 1/2]
   \<and> build_discretization_matrix 2 1 = Inr [[4, 2, 1], [2, 1, 1/2], [1, 1/2, 1/4]]"
  using discretization_outer_product [of 2 1] build_discretization_vector_2_1 build_discretization_matrix_2_1 by simp

section \<open>Claims on the QUBO builder\<close>


lemma bind_err_simps [simp]:
  "bind_err (Inl e) f = Inl e" "bind_err (Inr x) f = f x"
  by (simp_all add: bind_err_def)

lemma length_mat_of [simp]: "length (mat_of n e) = n"
  by (simp add: mat_of_def)

lemma nth_mat_of [simp]: "i < n \<Longrightarrow> mat_of n e ! i = map (e i) [0..<n]"
  by (simp add: mat_of_def)

lemma mat_of_cong:
  "(\<And>i j. i < n \<Longrightarrow> j < n \<Longrightarrow> e i j = e' i j) \<Longrightarrow> mat_of n e = mat_of n e'"
  by (simp add: mat_of_def)

lemma shape_mat_of [simp]: "shape (mat_of n e) = (n, n)"
proof (cases "n = 0")
  case True
  then show ?thesis by (simp add: shape_def mat_of_def)
next
  case False
  then have ne: "mat_of n e \<noteq> []" by (simp add: mat_of_def)
  then have "hd (mat_of n e) = mat_of n e ! 0" by (rule hd_conv_nth)
  with False have "length (hd (mat_of n e)) = n" by simp
  with ne show ?thesis by (simp add: shape_def)
qed

lemma np_diag_main: "np_diag v 0 = mat_of (length v) (\<lambda>i j. if i = j then v ! i else 0)"
  by (auto simp: np_diag_def Let_def mat_of_def)

lemma np_diag_upper:
  "np_diag v 1 = mat_of (length v + 1) (\<lambda>i j. if j = i + 1 then v ! i else 0)"
  by (auto simp: np_diag_def Let_def mat_of_def)

lemma np_diag_lower:
  "np_diag v (- 1) = mat_of (length v + 1) (\<lambda>i j. if i = j + 1 then v ! j else 0)"
  by (auto simp: np_diag_def Let_def mat_of_def)

lemma np_add_mat_of:
  "np_add (mat_of n e) (mat_of n e') = Inr (mat_of n (\<lambda>i j. e i j + e' i j))"
proof -
  have "map (\<lambda>i. map (\<lambda>j. mat_of n e ! (if n = 1 then 0 else i) ! (if n = 1 then 0 else j)
                          + mat_of n e' ! (if n = 1 then 0 else i) ! (if n = 1 then 0 else j))
                   [0..<n]) [0..<n]
        = mat_of n (\<lambda>i j. e i j + e' i j)"
    unfolding mat_of_def [of n "\<lambda>i j. e i j + e' i j"]
    by (intro map_cong refl) auto
  then show ?thesis
    by (simp add: np_add_def)
qed

lemma map_map_mat_of: "map (map h) (mat_of n e) = mat_of n (\<lambda>i j. h (e i j))"
  by (simp add: mat_of_def)

lemma set_corner_mat_of:
  assumes "0 < n"
  shows "set_corner (mat_of n e) v
           = Inr (mat_of n (\<lambda>i j. if i = n - 1 \<and> j = n - 1 then v else e i j))"
proof -
  let ?M = "mat_of n e"
  have ne: "?M \<noteq> []" using assms by (simp add: mat_of_def)
  have lst: "last ?M = map (e (n - 1)) [0..<n]"
    using assms by (simp add: last_conv_nth ne)
  have ne2: "last ?M \<noteq> []" using assms by (simp add: lst)
  have "butlast ?M @ [butlast (last ?M) @ [v]]
          = mat_of n (\<lambda>i j. if i = n - 1 \<and> j = n - 1 then v else e i j)"
  proof (rule nth_equalityI)
    show "length (butlast ?M @ [butlast (last ?M) @ [v]])
            = length (mat_of n (\<lambda>i j. if i = n - 1 \<and> j = n - 1 then v else e i j))"
      using assms by simp
  next
    fix i assume "i < length (butlast ?M @ [butlast (last ?M) @ [v]])"
    then have i: "i < n" using assms by simp
    show "(butlast ?M @ [butlast (last ?M) @ [v]]) ! i
            = mat_of n (\<lambda>i j. if i = n - 1 \<and> j = n - 1 then v else e i j) ! i"
    proof (cases "i = n - 1")
      case False
      with i have "i < n - 1" by simp
      then show ?thesis using i by (simp add: nth_append nth_butlast)
    next
      case True
      have "butlast (map (e (n - 1)) [0..<n]) @ [v]
              = map (\<lambda>j. if j = n - 1 then v else e (n - 1) j) [0..<n]"
        using assms by (intro nth_equalityI) (auto simp: nth_append nth_butlast)
      with True i show ?thesis by (simp add: nth_append lst)
    qed
  qed
  with ne ne2 show ?thesis by (simp add: set_corner_def)
qed

lemma tridiag_sym: "tridiag n i j = tridiag n j i"
  by (auto simp: tridiag_def)

lemma build_quadratic_minimization_matrix_mat_of:
  assumes "0 < n"
  shows "build_quadratic_minimization_matrix (int n + 1) dx
           = Inr (mat_of n (\<lambda>i j. tridiag n i j / dx ^ 2))"
proof -
  define A :: "nat \<Rightarrow> nat \<Rightarrow> real" where "A = (\<lambda>i j. if i = j then replicate n 2 ! i else 0)"
  define B :: "nat \<Rightarrow> nat \<Rightarrow> real"
    where "B = (\<lambda>i j. if j = i + 1 then replicate (n - 1) (- 1) ! i else 0)"
  define C :: "nat \<Rightarrow> nat \<Rightarrow> real"
    where "C = (\<lambda>i j. if i = j + 1 then replicate (n - 1) (- 1) ! j else 0)"
  have n1: "nat (int n + 1 - 1) = n" by simp
  have n2: "nat (int n + 1 - 2) = n - 1" by simp
  have sz: "length (replicate (n - 1) (- 1 :: real)) + 1 = n" using assms by simp
  have dA: "np_diag (replicate n 2) 0 = mat_of n A"
    unfolding A_def np_diag_main by simp
  have dB: "np_diag (replicate (n - 1) (- 1)) 1 = mat_of n B"
    unfolding B_def np_diag_upper sz ..
  have dC: "np_diag (replicate (n - 1) (- 1)) (- 1) = mat_of n C"
    unfolding C_def np_diag_lower sz ..
  have "build_quadratic_minimization_matrix (int n + 1) dx
          = Inr (mat_of n (\<lambda>i j. (if i = n - 1 \<and> j = n - 1 then 1 else A i j + B i j + C i j)
                                  / dx ^ 2))"
    unfolding build_quadratic_minimization_matrix_def n1 n2 dA dB dC
    by (simp only: np_add_mat_of bind_err_simps set_corner_mat_of [OF assms] map_map_mat_of)
  also have "mat_of n (\<lambda>i j. (if i = n - 1 \<and> j = n - 1 then 1 else A i j + B i j + C i j)
                                  / dx ^ 2)
             = mat_of n (\<lambda>i j. tridiag n i j / dx ^ 2)"
    by (rule mat_of_cong) (auto simp: tridiag_def A_def B_def C_def)
  finally show ?thesis .
qed


lemma concat_map_upt:
  "concat (map (\<lambda>p. map (g p) [0..<m]) [0..<n]) = map (\<lambda>I. g (I div m) (I mod m)) [0..<n * m]"
proof (induction n)
  case 0
  then show ?case by simp
next
  case (Suc n)
  have "Suc n * m = n * m + m" by simp
  then have split: "[0..<Suc n * m] = [0..<n * m] @ [n * m..<n * m + m]"
    using upt_add_eq_append [of 0 "n * m" m] by (simp only: le0)
  have tail: "map (\<lambda>I. g (I div m) (I mod m)) [n * m..<n * m + m] = map (g n) [0..<m]"
    by (rule nth_equalityI) simp_all
  have "[0..<Suc n] = [0..<n] @ [n]" by simp
  then show ?case
    unfolding split by (simp only: map_append concat_append Suc tail list.map concat.simps append_Nil2)
qed

lemma map_conv_upt: "map f xs = map (\<lambda>i. f (xs ! i)) [0..<length xs]"
  by (rule nth_equalityI) simp_all

lemma np_hstack_nonempty:
  "bs \<noteq> [] \<Longrightarrow> np_hstack bs = map (\<lambda>k. concat (map (\<lambda>B. B ! k) bs)) [0..<length (hd bs)]"
  by (cases bs) (simp_all add: np_hstack_def)

lemma np_hstack_mat_of:
  assumes "0 < n"
  shows "np_hstack (map (\<lambda>q. mat_of m (e q)) [0..<n])
           = map (\<lambda>k. map (\<lambda>J. e (J div m) k (J mod m)) [0..<n * m]) [0..<m]"
proof -
  let ?bs = "map (\<lambda>q. mat_of m (e q)) [0..<n]"
  have ne: "?bs \<noteq> []" using assms by simp
  then have "hd ?bs = ?bs ! 0" by (rule hd_conv_nth)
  with assms have len: "length (hd ?bs) = m" by simp
  have "np_hstack ?bs = map (\<lambda>k. concat (map (\<lambda>B. B ! k) ?bs)) [0..<m]"
    using np_hstack_nonempty [OF ne] len by simp
  also have "\<dots> = map (\<lambda>k. concat (map (\<lambda>q. map (e q k) [0..<m]) [0..<n])) [0..<m]"
    by (rule map_cong) (simp_all add: comp_def)
  also have "\<dots> = map (\<lambda>k. map (\<lambda>J. e (J div m) k (J mod m)) [0..<n * m]) [0..<m]"
    by (simp only: concat_map_upt)
  finally show ?thesis .
qed

lemma np_block2_scaled:
  assumes "0 < n"
  shows "np_block2 (map (map (\<lambda>val. map (map (\<lambda>x. x * val)) (mat_of m h))) (mat_of n hc))
           = mat_of (n * m) (\<lambda>I J. h (I mod m) (J mod m) * hc (I div m) (J div m))"
proof -
  have row: "np_hstack (map (\<lambda>val. map (map (\<lambda>x. x * val)) (mat_of m h)) (mat_of n hc ! i))
               = map (\<lambda>k. map (\<lambda>J. h k (J mod m) * hc i (J div m)) [0..<n * m]) [0..<m]"
    if "i < n" for i
  proof -
    have "map (\<lambda>val. map (map (\<lambda>x. x * val)) (mat_of m h)) (mat_of n hc ! i)
            = map (\<lambda>q. mat_of m (\<lambda>a b. h a b * hc i q)) [0..<n]"
      using that by (simp add: map_map_mat_of comp_def)
    then show ?thesis
      using np_hstack_mat_of [OF assms, of m "\<lambda>q a b. h a b * hc i q"] by simp
  qed
  have "np_block2 (map (map (\<lambda>val. map (map (\<lambda>x. x * val)) (mat_of m h))) (mat_of n hc))
          = concat (map (\<lambda>i. np_hstack (map (\<lambda>val. map (map (\<lambda>x. x * val)) (mat_of m h))
                                             (mat_of n hc ! i))) [0..<n])"
    unfolding np_block2_def map_map comp_def
    by (subst map_conv_upt [of _ "mat_of n hc"]) simp
  also have "\<dots> = concat (map (\<lambda>i. map (\<lambda>k. map (\<lambda>J. h k (J mod m) * hc i (J div m))
                                              [0..<n * m]) [0..<m]) [0..<n])"
  proof (rule arg_cong [of _ _ concat], rule map_cong [OF refl])
    fix i assume "i \<in> set [0..<n]"
    then have "i < n" by simp
    then show "np_hstack (map (\<lambda>val. map (map (\<lambda>x. x * val)) (mat_of m h)) (mat_of n hc ! i))
                 = map (\<lambda>k. map (\<lambda>J. h k (J mod m) * hc i (J div m)) [0..<n * m]) [0..<m]"
      by (rule row)
  qed
  also have "\<dots> = mat_of (n * m) (\<lambda>I J. h (I mod m) (J mod m) * hc (I div m) (J div m))"
    unfolding mat_of_def by (simp only: concat_map_upt)
  finally show ?thesis .
qed

lemma length_build_quadratic_minimization_vector:
  assumes "2 \<le> length f"
  shows "\<exists>d. build_quadratic_minimization_vector f dx y1 = Inr d \<and> length d = length f - 1"
proof -
  let ?d0 = "map uminus (butlast f)"
  let ?d = "map2 (+) (butlast ?d0) (butlast (tl f)) @ drop (length ?d0 - 1) ?d0"
  have len: "length ?d = length f - 1" using assms by simp
  with assms have "?d \<noteq> []" by auto
  with len show ?thesis
    unfolding build_quadratic_minimization_vector_def Let_def by simp
qed


lemma build_qubo_matrix_mat_of:
  assumes f: "2 \<le> length f" and dd: "signed \<longrightarrow> dd \<noteq> []"
  shows "\<exists>d_bin. length d_bin = (length f - 1) * length dd \<and>
           build_qubo_matrix f dx y1 (mat_of (length dd) h) dd signed
             = Inr (mat_of ((length f - 1) * length dd)
                     (\<lambda>I J. h (I mod length dd) (J mod length dd)
                              * (tridiag (length f - 1) (I div length dd) (J div length dd) / dx ^ 2)
                            + (if I = J then d_bin ! I else 0)))"
proof -
  let ?n = "length f - 1" and ?m = "length dd"
  have n: "0 < ?n" and lenf: "int (length f) = int ?n + 1" using f by simp_all
  obtain d_cont0 where d0: "build_quadratic_minimization_vector f dx y1 = Inr d_cont0"
    and len0: "length d_cont0 = ?n"
    using length_build_quadratic_minimization_vector [OF f] by blast
  define d_cont where
    "d_cont = (if signed then d_cont0[0 := d_cont0 ! 0 - 2 * dd ! 0 / dx ^ 2] else d_cont0)"
  have adj: "(if signed then (if dd = [] then Inl IndexError
                  else Inr (d_cont0[0 := d_cont0 ! 0 - 2 * dd ! 0 / dx ^ 2]))
               else Inr d_cont0) = (Inr d_cont :: error + vector)"
    using dd by (simp add: d_cont_def)
  have len: "length d_cont = ?n" by (simp add: d_cont_def len0)
  define d_bin where "d_bin = concat (map (\<lambda>val. map (\<lambda>x. x * val) dd) d_cont)"
  have lenb: "length d_bin = ?n * ?m"
    unfolding d_bin_def using length_concat_const [of d_cont "\<lambda>val. map (\<lambda>x. x * val) dd" ?m]
    by (simp add: len)
  have "build_qubo_matrix f dx y1 (mat_of ?m h) dd signed
          = np_add (mat_of (?n * ?m) (\<lambda>I J. h (I mod ?m) (J mod ?m)
                                        * (tridiag ?n (I div ?m) (J div ?m) / dx ^ 2)))
                   (np_diag d_bin 0)"
    unfolding build_qubo_matrix_def lenf build_quadratic_minimization_matrix_mat_of [OF n] d0 adj
      bind_err_simps Let_def np_block2_scaled [OF n] d_bin_def ..
  also have "\<dots> = Inr (mat_of (?n * ?m) (\<lambda>I J. h (I mod ?m) (J mod ?m)
                                        * (tridiag ?n (I div ?m) (J div ?m) / dx ^ 2)
                                      + (if I = J then d_bin ! I else 0)))"
    unfolding np_diag_main lenb by (rule np_add_mat_of)
  finally show ?thesis using lenb by blast
qed

lemma build_discretization_matrix_mat_of:
  "build_discretization_matrix qi qd
     = Inr (mat_of (length (build_discretization_vector qi qd))
             (\<lambda>a b. 2 powi (- (py_range2 (- qi + 1) (qd + 1) ! a
                                + py_range2 (- qi + 1) (qd + 1) ! b))))"
proof -
  let ?r = "py_range2 (- qi + 1) (qd + 1)"
  have "map (\<lambda>j1. map (\<lambda>j2. (2::real) powi (- (j1 + j2))) ?r) ?r
          = mat_of (length ?r) (\<lambda>a b. 2 powi (- (?r ! a + ?r ! b)))"
    unfolding mat_of_def
    by (subst map_conv_upt, rule map_cong [OF refl], subst map_conv_upt) (rule refl)
  moreover have "length (build_discretization_vector qi qd) = length ?r"
    by (simp add: build_discretization_vector_def)
  ultimately show ?thesis
    by (simp only: build_discretization_matrix_rows)
qed

text \<open>
  C4. For a block of at least two values, a positive grid step and the discretization
  element built from bit counts with \<open>qbits_integer + qbits_decimal \<ge> 1\<close>,
  \<^verbatim>\<open>build_qubo_matrix\<close> raises nothing and returns a matrix with
  \<open>(len(f_block) - 1) * (qbits_integer + qbits_decimal)\<close> rows, each of that length, that
  is equal to its transpose, for either number representation.
\<close>

theorem qubo_matrix_symmetric:
  assumes "2 \<le> length f_block" and "0 < dx" and "1 \<le> qbits_integer + qbits_decimal"
    and "build_discretization_matrix qbits_integer qbits_decimal = Inr H_discret_elem"
    and "d_discret_elem = build_discretization_vector qbits_integer qbits_decimal"
  shows "\<exists>Q. build_qubo_matrix f_block dx y1 H_discret_elem d_discret_elem signed = Inr Q
           \<and> length Q = (length f_block - 1) * nat (qbits_integer + qbits_decimal)
           \<and> (\<forall>I < length Q. length (Q ! I) = length Q
                 \<and> (\<forall>J < length Q. Q ! I ! J = Q ! J ! I))"
proof -
  let ?r = "py_range2 (- qbits_integer + 1) (qbits_decimal + 1)"
  define h :: "nat \<Rightarrow> nat \<Rightarrow> real" where "h = (\<lambda>a b. 2 powi (- (?r ! a + ?r ! b)))"
  have m: "length d_discret_elem = nat (qbits_integer + qbits_decimal)"
    using assms(5) by (simp add: length_build_discretization_vector)
  with assms(3) have ne: "signed \<longrightarrow> d_discret_elem \<noteq> []" by auto
  have Hd: "H_discret_elem = mat_of (length d_discret_elem) h"
    using assms(4) unfolding assms(5) h_def build_discretization_matrix_mat_of by simp
  have hsym: "h a b = h b a" for a b
    unfolding h_def by (subst add.commute) (rule refl)
  from build_qubo_matrix_mat_of [OF assms(1) ne, of dx y1 h]
  obtain d_bin where
    Q: "build_qubo_matrix f_block dx y1 H_discret_elem d_discret_elem signed
          = Inr (mat_of ((length f_block - 1) * length d_discret_elem)
                  (\<lambda>I J. h (I mod length d_discret_elem) (J mod length d_discret_elem)
                           * (tridiag (length f_block - 1) (I div length d_discret_elem)
                                (J div length d_discret_elem) / dx ^ 2)
                         + (if I = J then d_bin ! I else 0)))"
    unfolding Hd [symmetric] by blast
  define N where "N = (length f_block - 1) * length d_discret_elem"
  define E where
    "E = (\<lambda>I J. h (I mod length d_discret_elem) (J mod length d_discret_elem)
                 * (tridiag (length f_block - 1) (I div length d_discret_elem)
                      (J div length d_discret_elem) / dx ^ 2)
               + (if I = J then d_bin ! I else 0))"
  have Esym: "E I J = E J I" for I J
  proof (cases "I = J")
    case True
    then show ?thesis by simp
  next
    case False
    have "h (I mod length d_discret_elem) (J mod length d_discret_elem)
            * (tridiag (length f_block - 1) (I div length d_discret_elem)
                 (J div length d_discret_elem) / dx ^ 2)
          = h (J mod length d_discret_elem) (I mod length d_discret_elem)
            * (tridiag (length f_block - 1) (J div length d_discret_elem)
                 (I div length d_discret_elem) / dx ^ 2)"
      by (subst hsym, subst tridiag_sym) (rule refl)
    with False show ?thesis by (simp add: E_def)
  qed
  have Q': "build_qubo_matrix f_block dx y1 H_discret_elem d_discret_elem signed
              = Inr (mat_of N E)"
    unfolding Q N_def E_def ..
  have "length (mat_of N E) = (length f_block - 1) * nat (qbits_integer + qbits_decimal)"
    by (simp add: N_def m)
  moreover have "length (mat_of N E ! I) = length (mat_of N E)
                   \<and> (\<forall>J < length (mat_of N E). mat_of N E ! I ! J = mat_of N E ! J ! I)"
    if "I < length (mat_of N E)" for I
    using that Esym by simp
  ultimately show ?thesis
    using Q' by blast
qed

theorem qubo_matrix_symmetric_witness:
  "2 \<le> length [1, 2, 3 :: real] \<and> (0::real) < 1 \<and> (1::int) \<le> 2 + 0
   \<and> build_discretization_matrix 2 0 = Inr [[4, 2], [2, 1]]
   \<and> build_discretization_vector 2 0 = [2, 1]
   \<and> build_qubo_matrix [1, 2, 3] 1 10 [[4, 2], [2, 1]] [2, 1] True
       = Inr [[- 36, 4, - 4, - 2], [4, - 20, - 2, - 1], [- 4, - 2, - 4, 2], [- 2, - 1, 2, - 3]]"
proof -
  have v: "build_discretization_vector 2 0 = [2, 1]"
    by code_simp
  have m: "build_discretization_matrix 2 0 = Inr [[4, 2], [2, 1]]"
    by code_simp
  have q: "build_qubo_matrix [1, 2, 3] 1 10 [[4, 2], [2, 1]] [2, 1] True
       = Inr [[- 36, 4, - 4, - 2], [4, - 20, - 2, - 1], [- 4, - 2, - 4, 2], [- 2, - 1, 2, - 3]]"
    by code_simp
  have "\<exists>Q. build_qubo_matrix [1, 2, 3] 1 10 [[4, 2], [2, 1]] [2, 1] True = Inr Q
           \<and> length Q = (length [1, 2, 3 :: real] - 1) * nat (2 + 0)
           \<and> (\<forall>I < length Q. length (Q ! I) = length Q
                 \<and> (\<forall>J < length Q. Q ! I ! J = Q ! J ! I))"
    by (rule qubo_matrix_symmetric [of "[1, 2, 3]" 1 2 0 "[[4, 2], [2, 1]]" "[2, 1]" 10 True])
       (simp_all add: v m)
  with v m q show ?thesis by simp
qed
section \<open>Facts on the block solver loop\<close>

lemma bind_err_eq_Inr: "bind_err m f = Inr y \<longleftrightarrow> (\<exists>x. m = Inr x \<and> f x = Inr y)"
  by (cases m) simp_all


lemma assign_slice_Inr:
  assumes "assign_slice solution i j vals = Inr solution'" and "i \<le> j" and "j \<le> length solution"
  shows "length solution' = length solution"
    and "\<And>k. k < i \<Longrightarrow> solution' ! k = solution ! k"
    and "\<And>k. j \<le> k \<Longrightarrow> k < length solution \<Longrightarrow> solution' ! k = solution ! k"
    and "\<And>k. i \<le> k \<Longrightarrow> k < j \<Longrightarrow> solution' ! k \<noteq> None"
proof -
  have lo: "min i (length solution) = i" and hi: "max i (min j (length solution)) = j"
    using assms(2,3) by simp_all
  obtain ws where ws: "length ws = j - i" and sol': "solution' = take i solution @ map Some ws @ drop j solution"
  proof (cases "length vals = j - i")
    case True
    with assms(1) have "solution' = take i solution @ map Some vals @ drop j solution"
      by (simp add: assign_slice_def lo hi)
    with True that show ?thesis by blast
  next
    case False
    with assms(1) have "solution' = take i solution @ map Some (replicate (j - i) (hd vals)) @ drop j solution"
      by (simp add: assign_slice_def lo hi split: if_splits)
    with that [of "replicate (j - i) (hd vals)"] show ?thesis by simp
  qed
  show "length solution' = length solution"
    using assms(2,3) ws by (simp add: sol')
  show "solution' ! k = solution ! k" if "k < i" for k
    using that assms(2,3) by (simp add: sol' nth_append)
  show "solution' ! k = solution ! k" if "j \<le> k" "k < length solution" for k
  proof -
    let ?pre = "take i solution @ map Some ws"
    have pre: "length ?pre = j" using assms(2,3) ws by simp
    have "solution' ! k = (?pre @ drop j solution) ! (length ?pre + (k - j))"
      using that pre by (simp only: sol' append_assoc le_add_diff_inverse)
    also have "\<dots> = drop j solution ! (k - j)" by (rule nth_append_length_plus)
    also have "\<dots> = solution ! k" using that by simp
    finally show ?thesis .
  qed
  show "solution' ! k \<noteq> None" if "i \<le> k" "k < j" for k
  proof -
    from that have "k - i < j - i" by simp
    then show ?thesis
      using that assms(2,3) ws by (simp add: sol' nth_append)
  qed
qed

lemma assign_slice_fits:
  assumes "length vals = j - i" and "i \<le> j" and "j \<le> length solution"
  shows "\<exists>solution'. assign_slice solution i j vals = Inr solution'"
  using assms by (simp add: assign_slice_def)

lemma assign_slice_no_IndexError: "assign_slice solution i j vals \<noteq> Inl IndexError"
  by (simp add: assign_slice_def Let_def)

lemma samples_cont_of_no_IndexError: "samples_cont_of sample_set dd \<noteq> Inl IndexError"
  by (simp add: samples_cont_of_def Let_def)

lemma fold_err_upt_invariant:
  assumes "fold_err step (map g [a..<b]) s = Inr s'" and "P a s"
    and "\<And>k t t'. a \<le> k \<Longrightarrow> k < b \<Longrightarrow> P k t \<Longrightarrow> step t (g k) = Inr t' \<Longrightarrow> P (Suc k) t'"
    and "a \<le> b"
  shows "P b s'"
  using assms
proof (induction "b - a" arbitrary: a s)
  case 0
  then show ?case by simp
next
  case (Suc d)
  then have lt: "a < b" by simp
  then have "[a..<b] = a # [Suc a..<b]" by (rule upt_conv_Cons)
  with Suc.prems(1) obtain t where t: "step s (g a) = Inr t"
    and rest: "fold_err step (map g [Suc a..<b]) t = Inr s'"
    by (auto simp: bind_err_eq_Inr)
  have "P (Suc a) t" using Suc.prems(3) [of a s t] lt Suc.prems(2) t by simp
  moreover have "d = b - Suc a" using Suc.hyps(2) by simp
  ultimately show ?case
    using Suc.hyps(1) [of "Suc a" t] rest Suc.prems(3) lt by simp
qed

lemma fold_err_upt_total:
  assumes "P a s"
    and "\<And>k t t'. a \<le> k \<Longrightarrow> k < b \<Longrightarrow> P k t \<Longrightarrow> step t (g k) = Inr t' \<Longrightarrow> P (Suc k) t'"
    and "\<And>k t. a \<le> k \<Longrightarrow> k < b \<Longrightarrow> P k t \<Longrightarrow> \<exists>t'. step t (g k) = Inr t'"
    and "a \<le> b"
  shows "\<exists>s'. fold_err step (map g [a..<b]) s = Inr s'"
  using assms
proof (induction "b - a" arbitrary: a s)
  case 0
  then show ?case by simp
next
  case (Suc d)
  then have lt: "a < b" by simp
  then have split: "[a..<b] = a # [Suc a..<b]" by (rule upt_conv_Cons)
  obtain t where t: "step s (g a) = Inr t"
    using Suc.prems(3) [of a s] lt Suc.prems(1) by auto
  have "P (Suc a) t" using Suc.prems(2) [of a s t] lt Suc.prems(1) t by simp
  moreover have "d = b - Suc a" using Suc.hyps(2) by simp
  ultimately have "\<exists>s'. fold_err step (map g [Suc a..<b]) t = Inr s'"
    using Suc.hyps(1) [of "Suc a" t] Suc.prems(2,3) lt by simp
  then show ?case by (simp add: split t)
qed


lemma ceil_div_less:
  assumes "0 < p" and "k < (m + p - 1) div p"
  shows "k * p < (m::nat)"
proof -
  from assms(2) have "Suc k \<le> (m + p - 1) div p" by simp
  then have "Suc k * p \<le> m + p - 1"
    using assms(1) by (simp only: less_eq_div_iff_mult_less_eq)
  with assms(1) show ?thesis by simp
qed

lemma ceil_div_covers:
  assumes "0 < p"
  shows "(m::nat) \<le> ((m + p - 1) div p) * p"
proof -
  let ?a = "m + p - 1"
  have "?a = (?a div p) * p + ?a mod p" by simp
  moreover have "?a mod p < p" using assms by simp
  ultimately have "?a < (?a div p) * p + p" by linarith
  with assms show ?thesis by simp
qed

lemma py_range3_indices:
  assumes "0 < ppq" and "1 \<le> n"
  shows "\<exists>indices. py_range3 1 (int n) ppq = Inr indices
           \<and> map nat indices = map (\<lambda>k. 1 + k * nat ppq) [0..<(n - 1 + nat ppq - 1) div nat ppq]"
proof -
  define p where "p = nat ppq"
  have ppq: "ppq = int p" and p: "0 < p" using assms(1) by (simp_all add: p_def)
  have "int n - 1 + int p - 1 = int (n - 1 + p - 1)" using assms(2) p by simp
  then have cnt: "nat ((int n - 1 + int p - 1) div int p) = (n - 1 + p - 1) div p"
    by (simp only: zdiv_int [symmetric] nat_int)
  have elt: "nat (1 + int k * int p) = 1 + k * p" for k
    by (simp add: nat_add_distrib nat_mult_distrib)
  have "py_range3 1 (int n) (int p)
          = Inr (map (\<lambda>k. 1 + int k * int p) [0..<(n - 1 + p - 1) div p])"
    unfolding py_range3_def using p cnt by (simp only: of_nat_0_less_iff of_nat_eq_0_iff if_True if_False) simp
  moreover have "map nat (map (\<lambda>k. 1 + int k * int p) [0..<(n - 1 + p - 1) div p])
                   = map (\<lambda>k. 1 + k * p) [0..<(n - 1 + p - 1) div p]"
    unfolding map_map comp_def elt ..
  ultimately show ?thesis
    unfolding ppq nat_int by blast
qed



lemma samples_cont_of_Inr:
  assumes "sample_set \<noteq> []" and "dd \<noteq> []"
    and "\<And>s. s \<in> set sample_set \<Longrightarrow> length (sample_values s) = u * length dd"
  shows "\<exists>sc. samples_cont_of sample_set dd = Inr sc \<and> length sc = length sample_set
           \<and> (\<forall>row \<in> set sc. length row = u)"
proof -
  have L: "length (sample_values (hd sample_set)) = u * length dd"
    using assms(1,3) by simp
  have "\<not> list_ex (\<lambda>s. length (sample_values s) \<noteq> u * length dd) sample_set"
    using assms(3) by (simp add: list_ex_iff)
  then show ?thesis
    using assms(1,2) by (simp add: samples_cont_of_def Let_def L)
qed

lemma block_slice_length:
  assumes "1 \<le> i" and "i < length f" and "0 < p"
  shows "length (take (min (i + p) (length f) - (i - 1)) (drop (i - 1) f))
           = min (i + p) (length f) - i + 1"
    and "i < min (i + p) (length f)" and "min (i + p) (length f) \<le> length f"
  using assms by auto

lemma solve_block_unfold:
  "solve_block f dx qi signed ppq avg sample_qubo garbage Hd dd (sol, err) i =
     bind_err (build_qubo_matrix (take (min (i + nat ppq) (length f) - (i - 1)) (drop (i - 1) f)) dx
                 (case sol ! (i - 1) of Some v \<Rightarrow> v | None \<Rightarrow> garbage (i - 1)) Hd dd signed) (\<lambda>Q.
     case sample_qubo i Q of
       None \<Rightarrow> Inl SamplerError
     | Some ss \<Rightarrow>
     bind_err (samples_cont_of ss dd) (\<lambda>sc0.
     bind_err (assign_slice sol i (min (i + nat ppq) (length f))
                 (fst (aggregate_samples avg ss
                        (if signed then map (map (\<lambda>x. x - 2 powi (qi - 1))) sc0 else sc0)))) (\<lambda>sol'.
     Inr (sol', err + snd (aggregate_samples avg ss
                        (if signed then map (map (\<lambda>x. x - 2 powi (qi - 1))) sc0 else sc0))
                + error_shift_of (take (min (i + nat ppq) (length f) - (i - 1)) (drop (i - 1) f)) dx
                    (case sol ! (i - 1) of Some v \<Rightarrow> v | None \<Rightarrow> garbage (i - 1)) qi signed))))"
  unfolding solve_block_def Let_def prod.case split_beta fst_conv snd_conv ..

lemma solve_block_Inr_iff:
  "solve_block f dx qi signed ppq avg sample_qubo garbage Hd dd (sol, err) i = Inr (sol', err')
   \<longleftrightarrow> (\<exists>Q ss sc0.
         build_qubo_matrix (take (min (i + nat ppq) (length f) - (i - 1)) (drop (i - 1) f)) dx
             (case sol ! (i - 1) of Some v \<Rightarrow> v | None \<Rightarrow> garbage (i - 1)) Hd dd signed = Inr Q
       \<and> sample_qubo i Q = Some ss
       \<and> samples_cont_of ss dd = Inr sc0
       \<and> assign_slice sol i (min (i + nat ppq) (length f))
            (fst (aggregate_samples avg ss
                   (if signed then map (map (\<lambda>x. x - 2 powi (qi - 1))) sc0 else sc0))) = Inr sol'
       \<and> err' = err + snd (aggregate_samples avg ss
                   (if signed then map (map (\<lambda>x. x - 2 powi (qi - 1))) sc0 else sc0))
                + error_shift_of (take (min (i + nat ppq) (length f) - (i - 1)) (drop (i - 1) f)) dx
                    (case sol ! (i - 1) of Some v \<Rightarrow> v | None \<Rightarrow> garbage (i - 1)) qi signed)"
  (is "?blk = _ \<longleftrightarrow> (\<exists>Q ss sc0. ?bq = Inr Q \<and> _ i Q = _ \<and> _ \<and> ?as ss sc0 = _ \<and> _ = ?e ss sc0)")
proof (cases ?bq)
  case (Inl e)
  then show ?thesis unfolding solve_block_unfold by simp
next
  case Q: (Inr Q)
  show ?thesis
  proof (cases "sample_qubo i Q")
    case None
    with Q show ?thesis unfolding solve_block_unfold by simp
  next
    case ss: (Some ss)
    show ?thesis
    proof (cases "samples_cont_of ss dd")
      case (Inl e)
      with Q ss show ?thesis unfolding solve_block_unfold by simp
    next
      case sc0: (Inr sc0)
      show ?thesis
      proof (cases "?as ss sc0")
        case (Inl e)
        with Q ss sc0 show ?thesis unfolding solve_block_unfold by simp
      next
        case (Inr sol'')
        with Q ss sc0 show ?thesis unfolding solve_block_unfold by auto
      qed
    qed
  qed
qed


lemma solve_block_preserves:
  assumes blk: "solve_block f dx qi signed ppq avg sample_qubo garbage Hd dd (sol, err) i
                  = Inr (sol', err')"
    and i: "1 \<le> i" "i < length f" and p: "0 < ppq" and len: "length sol = length f"
    and below: "\<And>j. j < i \<Longrightarrow> sol ! j \<noteq> None"
  shows "length sol' = length f"
    and "\<And>j. j < min (i + nat ppq) (length f) \<Longrightarrow> sol' ! j \<noteq> None"
    and "sol' ! 0 = sol ! 0"
proof -
  let ?next = "min (i + nat ppq) (length f)"
  from blk obtain vals where a: "assign_slice sol i ?next vals = Inr sol'"
    unfolding solve_block_Inr_iff by blast
  have le: "i \<le> ?next" "?next \<le> length sol" using i p len by simp_all
  note facts = assign_slice_Inr [OF a le]
  show "length sol' = length f" using facts(1) len by simp
  show "sol' ! 0 = sol ! 0" using facts(2) [of 0] i by simp
  show "sol' ! j \<noteq> None" if "j < ?next" for j
  proof (cases "j < i")
    case True
    with facts(2) [of j] below [of j] show ?thesis by simp
  next
    case False
    with facts(4) [of j] that show ?thesis by simp
  qed
qed

lemma length_fst_aggregate_samples:
  assumes "sc \<noteq> []" and "\<And>row. row \<in> set sc \<Longrightarrow> length row = u"
  shows "length (fst (aggregate_samples avg ss sc)) = u"
proof -
  have "hd sc \<in> set sc" using assms(1) by simp
  then have "length (hd sc) = u" by (rule assms(2))
  then show ?thesis by (simp add: aggregate_samples_def Let_def)
qed

lemma build_qubo_matrix_block:
  assumes "1 \<le> i" and "i < length f" and "0 < ppq" and "signed \<longrightarrow> dd \<noteq> []"
  shows "\<exists>Q. build_qubo_matrix (take (min (i + nat ppq) (length f) - (i - 1)) (drop (i - 1) f))
                dx y (mat_of (length dd) h) dd signed = Inr Q
            \<and> length Q = (min (i + nat ppq) (length f) - i) * length dd"
proof -
  let ?next_f = "take (min (i + nat ppq) (length f) - (i - 1)) (drop (i - 1) f)"
  have len: "length ?next_f = min (i + nat ppq) (length f) - i + 1"
    using assms(1-3) by auto
  then have two: "2 \<le> length ?next_f" using assms(1-3) by auto
  from build_qubo_matrix_mat_of [OF two assms(4), of dx y h]
  obtain M where "build_qubo_matrix ?next_f dx y (mat_of (length dd) h) dd signed
                    = Inr (mat_of ((length ?next_f - 1) * length dd) M)"
    by blast
  moreover have "length ?next_f - 1 = min (i + nat ppq) (length f) - i"
    unfolding len by simp
  then have "length (mat_of ((length ?next_f - 1) * length dd) M)
               = (min (i + nat ppq) (length f) - i) * length dd"
    by (simp only: length_mat_of)
  ultimately show ?thesis by blast
qed


lemma solve_block_returns:
  assumes i: "1 \<le> i" "i < length f" and p: "0 < ppq" and len: "length sol = length f"
    and dd: "dd \<noteq> []"
    and sampler: "\<And>j Q. \<exists>ss. sample_qubo j Q = Some ss \<and> ss \<noteq> []
                          \<and> (\<forall>s \<in> set ss. length (sample_values s) = length Q)"
  shows "\<exists>sol' err'. solve_block f dx qi signed ppq avg sample_qubo garbage
                        (mat_of (length dd) h) dd (sol, err) i = Inr (sol', err')"
proof -
  let ?next = "min (i + nat ppq) (length f)"
  let ?u = "?next - i"
  let ?y = "case sol ! (i - 1) of Some v \<Rightarrow> v | None \<Rightarrow> garbage (i - 1)"
  from build_qubo_matrix_block [OF i p, of signed dd dx ?y h] dd
  obtain Q where Q: "build_qubo_matrix (take (?next - (i - 1)) (drop (i - 1) f)) dx ?y
                       (mat_of (length dd) h) dd signed = Inr Q"
    and lenQ: "length Q = ?u * length dd" by blast
  from sampler [of i Q] obtain ss where ss: "sample_qubo i Q = Some ss" "ss \<noteq> []"
    and lens: "\<And>s. s \<in> set ss \<Longrightarrow> length (sample_values s) = ?u * length dd"
    using lenQ by auto
  from samples_cont_of_Inr [OF ss(2) dd lens]
  obtain sc0 where sc0: "samples_cont_of ss dd = Inr sc0" "length sc0 = length ss"
    and rows: "\<And>row. row \<in> set sc0 \<Longrightarrow> length row = ?u" by blast
  let ?sc = "if signed then map (map (\<lambda>x. x - 2 powi (qi - 1))) sc0 else sc0"
  have ne: "?sc \<noteq> []" using sc0(2) ss(2) by auto
  have rows': "length row = ?u" if "row \<in> set ?sc" for row
    using that rows by (auto split: if_splits)
  have "length (fst (aggregate_samples avg ss ?sc)) = ?u"
    using ne rows' by (rule length_fst_aggregate_samples)
  moreover have "i \<le> ?next" "?next \<le> length sol" using i p len by simp_all
  ultimately obtain sol' where
    "assign_slice sol i ?next (fst (aggregate_samples avg ss ?sc)) = Inr sol'"
    using assign_slice_fits by blast
  with Q ss(1) sc0(1) show ?thesis
    unfolding solve_block_Inr_iff by blast
qed

lemma solve_unfold_pos:
  assumes "1 \<le> length f" and "0 < ppq"
  shows "solve f dx y1 qi qd signed ppq avg sample_qubo garbage
           = fold_err (solve_block f dx qi signed ppq avg sample_qubo garbage
                         (mat_of (length (build_discretization_vector qi qd)) (discret_entry qi qd))
                         (build_discretization_vector qi qd))
               (map (\<lambda>k. 1 + k * nat ppq) [0..<block_count (length f) ppq])
               ((replicate (length f) None)[0 := Some y1], 0)"
proof -
  from py_range3_indices [OF assms(2,1)] obtain indices
    where "py_range3 1 (int (length f)) ppq = Inr indices"
      and "map nat indices = map (\<lambda>k. 1 + k * nat ppq) [0..<block_count (length f) ppq]"
    unfolding block_count_def by blast
  moreover have "replicate (length f) (None :: real option) \<noteq> []" using assms(1) by auto
  moreover have "build_discretization_matrix qi qd
      = Inr (mat_of (length (build_discretization_vector qi qd)) (discret_entry qi qd))"
    unfolding discret_entry_def by (rule build_discretization_matrix_mat_of)
  ultimately show ?thesis
    unfolding solve_def Let_def by (simp only: if_False bind_err_simps)
qed

lemma solved_up_to_init:
  "1 \<le> n \<Longrightarrow> solved_up_to n y1 p 0 ((replicate n None)[0 := Some y1], e)"
  by (simp add: solved_up_to_def)

lemma solved_up_to_step:
  assumes blk: "solve_block f dx qi signed ppq avg sample_qubo garbage Hd dd t (1 + k * nat ppq)
                  = Inr t'"
    and k: "k < block_count (length f) ppq" and p: "0 < ppq"
    and inv: "solved_up_to (length f) y1 (nat ppq) k t"
  shows "solved_up_to (length f) y1 (nat ppq) (Suc k) t'"
proof -
  obtain sol err where t: "t = (sol, err)" by (cases t)
  obtain sol' err' where t': "t' = (sol', err')" by (cases t')
  let ?i = "1 + k * nat ppq"
  have "k * nat ppq < length f - 1"
    using k p unfolding block_count_def by (intro ceil_div_less) simp_all
  then have i: "1 \<le> ?i" "?i < length f" by simp_all
  have len: "length sol = length f" and zero: "sol ! 0 = Some y1"
    using inv by (simp_all add: solved_up_to_def t)
  have below: "sol ! j \<noteq> None" if "j < ?i" for j
    using inv that i by (simp add: solved_up_to_def t)
  note facts = solve_block_preserves [OF blk [unfolded t t'] i p len below]
  have "1 + Suc k * nat ppq = ?i + nat ppq" by simp
  with facts zero show ?thesis
    unfolding solved_up_to_def t' by (simp only: fst_conv) simp
qed

lemma solved_up_to_end:
  assumes "solved_up_to n y1 (nat ppq) (block_count n ppq) (sol, err)" and "0 < ppq"
  shows "length sol = n \<and> (\<forall>j < n. sol ! j \<noteq> None) \<and> sol ! 0 = Some y1"
proof -
  have "n - 1 \<le> block_count n ppq * nat ppq"
    unfolding block_count_def using assms(2) by (intro ceil_div_covers) simp
  then have "min (1 + block_count n ppq * nat ppq) n = n" by simp
  with assms(1) show ?thesis by (simp add: solved_up_to_def)
qed

lemma solve_Inr_pos:
  assumes "solve f dx y1 qi qd signed ppq avg sample_qubo garbage = Inr (sol, err)"
    and "1 \<le> length f" and "0 < ppq"
  shows "length sol = length f \<and> (\<forall>j < length f. sol ! j \<noteq> None) \<and> sol ! 0 = Some y1"
proof -
  have "solved_up_to (length f) y1 (nat ppq) (block_count (length f) ppq) (sol, err)"
  proof (rule fold_err_upt_invariant
      [where P = "solved_up_to (length f) y1 (nat ppq)" and a = 0
         and g = "\<lambda>k. 1 + k * nat ppq"])
    show "fold_err (solve_block f dx qi signed ppq avg sample_qubo garbage
                         (mat_of (length (build_discretization_vector qi qd)) (discret_entry qi qd))
                         (build_discretization_vector qi qd))
               (map (\<lambda>k. 1 + k * nat ppq) [0..<block_count (length f) ppq])
               ((replicate (length f) None)[0 := Some y1], 0) = Inr (sol, err)"
      using assms(1) unfolding solve_unfold_pos [OF assms(2,3)] .
    show "solved_up_to (length f) y1 (nat ppq) 0 ((replicate (length f) None)[0 := Some y1], 0)"
      using assms(2) by (rule solved_up_to_init)
  qed (simp_all add: solved_up_to_step [OF _ _ assms(3)])
  then show ?thesis using assms(3) by (rule solved_up_to_end)
qed

lemma block_index_in_range:
  assumes "k < block_count n ppq" and "0 < ppq"
  shows "1 \<le> 1 + k * nat ppq" and "1 + k * nat ppq < n"
proof -
  have "k * nat ppq < n - 1"
    using assms unfolding block_count_def by (intro ceil_div_less) simp_all
  then show "1 + k * nat ppq < n" by simp
qed simp

lemma solve_returns_pos:
  assumes "1 \<le> length f" and "0 < ppq" and "1 \<le> qi + qd"
    and sampler: "\<And>j Q. \<exists>ss. sample_qubo j Q = Some ss \<and> ss \<noteq> []
                          \<and> (\<forall>s \<in> set ss. length (sample_values s) = length Q)"
  shows "\<exists>sol err. solve f dx y1 qi qd signed ppq avg sample_qubo garbage = Inr (sol, err)"
proof -
  let ?dd = "build_discretization_vector qi qd"
  have dd: "?dd \<noteq> []"
    using assms(3) length_build_discretization_vector [of qi qd] by auto
  have "\<exists>s'. fold_err (solve_block f dx qi signed ppq avg sample_qubo garbage
                         (mat_of (length ?dd) (discret_entry qi qd)) ?dd)
               (map (\<lambda>k. 1 + k * nat ppq) [0..<block_count (length f) ppq])
               ((replicate (length f) None)[0 := Some y1], 0) = Inr s'"
  proof (rule fold_err_upt_total [where P = "solved_up_to (length f) y1 (nat ppq)"])
    show "solved_up_to (length f) y1 (nat ppq) 0 ((replicate (length f) None)[0 := Some y1], 0)"
      using assms(1) by (rule solved_up_to_init)
  next
    fix k t
    assume k: "k < block_count (length f) ppq"
      and inv: "solved_up_to (length f) y1 (nat ppq) k t"
    obtain sol err where t: "t = (sol, err)" by (cases t)
    have len: "length sol = length f" using inv by (simp add: solved_up_to_def t)
    have "\<exists>sol' err'. solve_block f dx qi signed ppq avg sample_qubo garbage
                  (mat_of (length ?dd) (discret_entry qi qd)) ?dd (sol, err) (1 + k * nat ppq)
                    = Inr (sol', err')"
      by (rule solve_block_returns [OF block_index_in_range [OF k assms(2)] assms(2) len dd])
         (rule sampler)
    then show "\<exists>t'. solve_block f dx qi signed ppq avg sample_qubo garbage
                  (mat_of (length ?dd) (discret_entry qi qd)) ?dd t (1 + k * nat ppq) = Inr t'"
      unfolding t by blast
  qed (simp_all add: solved_up_to_step [OF _ _ assms(2)])
  then show ?thesis
    unfolding solve_unfold_pos [OF assms(1,2)] by auto
qed


lemma solve_step_zero:
  assumes "1 \<le> length f"
  shows "solve f dx y1 qi qd signed 0 avg sample_qubo garbage = Inl ValueError"
proof -
  have "replicate (length f) (None :: real option) \<noteq> []" using assms by auto
  then show ?thesis
    unfolding solve_def Let_def build_discretization_matrix_rows
    by (simp add: py_range3_def)
qed

lemma solve_step_negative:
  assumes "1 \<le> length f" and "ppq < 0"
  shows "solve f dx y1 qi qd signed ppq avg sample_qubo garbage
           = Inr ((replicate (length f) None)[0 := Some y1], 0)"
proof -
  have ne: "replicate (length f) (None :: real option) \<noteq> []" using assms(1) by auto
  have "1 - int (length f) - ppq - 1 \<le> - ppq - 1" using assms(1) by linarith
  then have "(1 - int (length f) - ppq - 1) div (- ppq) \<le> (- ppq - 1) div (- ppq)"
    using assms(2) by (intro zdiv_mono1) simp_all
  also have "(- ppq - 1) div (- ppq) = 0"
    using assms(2) by (intro div_pos_pos_trivial) simp_all
  finally have "(1 - int (length f) - ppq - 1) div (- ppq) \<le> 0" .
  then have "py_range3 1 (int (length f)) ppq = Inr []"
    using assms(2) by (simp add: py_range3_def)
  with ne show ?thesis
    unfolding solve_def Let_def build_discretization_matrix_rows by simp
qed


section \<open>Claims on the block solver loop\<close>

lemma solve_block_frame:
  assumes blk: "solve_block f dx qi signed ppq avg sample_qubo garbage Hd dd (sol, err) i
                  = Inr (sol', err')"
    and i: "1 \<le> i" "i < length f" and p: "0 < ppq" and len: "length sol = length f"
    and k: "k < i \<or> min (i + nat ppq) (length f) \<le> k" "k < length f"
  shows "sol' ! k = sol ! k"
proof -
  let ?next = "min (i + nat ppq) (length f)"
  from blk obtain vals where a: "assign_slice sol i ?next vals = Inr sol'"
    unfolding solve_block_Inr_iff by blast
  have le: "i \<le> ?next" "?next \<le> length sol" using i p len by simp_all
  note facts = assign_slice_Inr [OF a le]
  from k(1) show ?thesis
  proof
    assume "k < i"
    then show ?thesis by (rule facts(2))
  next
    assume "?next \<le> k"
    then show ?thesis using k(2) len by (intro facts(3)) simp_all
  qed
qed


lemma discretization_empty:
  assumes "qi + qd \<le> 0"
  shows "build_discretization_vector qi qd = []" and "build_discretization_matrix qi qd = Inr []"
proof -
  have "py_range2 (- qi + 1) (qd + 1) = []" using assms by (simp add: py_range2_def)
  then show "build_discretization_vector qi qd = []" "build_discretization_matrix qi qd = Inr []"
    unfolding build_discretization_vector_def build_discretization_matrix_rows Let_def
    by simp_all
qed


lemma all_ones_sampler_answers:
  "\<exists>ss. all_ones_sampler j Q = Some ss \<and> ss \<noteq> []
        \<and> (\<forall>s \<in> set ss. length (sample_values s) = length Q)"
  by (simp add: all_ones_sampler_def)


text \<open>
  C10. Whenever \<^verbatim>\<open>solve\<close> returns on a grid of at least one point, entry 0 of the
  solution is the boundary value \<open>y1\<close> it was called with; and an iteration of the loop at
  index \<open>i \<ge> 1\<close> leaves every entry outside the slice from \<open>i\<close> to
  \<open>min(i + points_per_qubo, len(f)) - 1\<close> as it was, entry 0 among them.
\<close>

theorem solve_keeps_boundary_value:
  assumes "1 \<le> length f"
    and "solve f dx y1 qbits_integer qbits_decimal signed points_per_qubo average_solutions
           sample_qubo garbage = Inr (solution, error)"
  shows "solution ! 0 = Some y1
       \<and> (\<forall>sol err sol' err' i k.
            solve_block f dx qbits_integer signed points_per_qubo average_solutions sample_qubo
                garbage H_discret_elem d_discret_elem (sol, err) i = Inr (sol', err')
            \<and> 1 \<le> i \<and> i < length f \<and> 0 < points_per_qubo \<and> length sol = length f
            \<and> (k < i \<or> min (i + nat points_per_qubo) (length f) \<le> k) \<and> k < length f
            \<longrightarrow> sol' ! k = sol ! k)"
proof -
  consider "points_per_qubo = 0" | "points_per_qubo < 0" | "0 < points_per_qubo" by linarith
  then have "solution ! 0 = Some y1"
  proof cases
    case 1
    with assms solve_step_zero [OF assms(1)] show ?thesis by simp
  next
    case 2
    from assms(2) solve_step_negative [OF assms(1) 2, of dx y1 qbits_integer qbits_decimal signed
        average_solutions sample_qubo garbage]
    have "solution = (replicate (length f) None)[0 := Some y1]" by simp
    moreover have "0 < length (replicate (length f) (None :: real option))"
      using assms(1) by auto
    ultimately show ?thesis by (simp only: nth_list_update_eq)
  next
    case 3
    from solve_Inr_pos [OF assms(2,1) 3] show ?thesis by simp
  qed
  moreover have "\<forall>sol err sol' err' i k.
            solve_block f dx qbits_integer signed points_per_qubo average_solutions sample_qubo
                garbage H_discret_elem d_discret_elem (sol, err) i = Inr (sol', err')
            \<and> 1 \<le> i \<and> i < length f \<and> 0 < points_per_qubo \<and> length sol = length f
            \<and> (k < i \<or> min (i + nat points_per_qubo) (length f) \<le> k) \<and> k < length f
            \<longrightarrow> sol' ! k = sol ! k"
    using solve_block_frame by blast
  ultimately show ?thesis ..
qed

theorem solve_keeps_boundary_value_witness:
  "1 \<le> length [0, 0, 0 :: real]
   \<and> solve [0, 0, 0] 1 7 1 1 False 1 False all_ones_sampler (\<lambda>k. 0)
       = Inr ([Some 7, Some (3 / 2), Some (3 / 2)], 205 / 4)
   \<and> [Some 7, Some (3 / 2), Some (3 / 2 :: real)] ! 0 = Some 7"
proof -
  have s: "solve [0, 0, 0] 1 7 1 1 False 1 False all_ones_sampler (\<lambda>k. 0)
             = Inr ([Some 7, Some (3 / 2), Some (3 / 2)], 205 / 4)"
    by code_simp
  have n: "1 \<le> length [0, 0, 0 :: real]" by simp
  from solve_keeps_boundary_value [OF n s] s show ?thesis by simp
qed

text \<open>
  C2, as stated, fails: the module has no check of the static configuration and no
  configuration error. With no bits the discretization builders return the empty vector and
  the empty matrix; \<^verbatim>\<open>solve\<close> with a negative grid step builds the matrices, calls the
  sampler and returns; with a negative block size it returns after no iteration, leaving
  all entries but the first unassigned; with no bits it fails only in the loop, with the
  \<^verbatim>\<open>ValueError\<close> of the reshape.
\<close>

theorem configuration_not_validated_counterexample:
  "build_discretization_vector 0 0 = []
   \<and> build_discretization_matrix 0 0 = Inr []
   \<and> solve [0, 0] (- 1) 1 1 0 False 1 False all_ones_sampler (\<lambda>k. 0) = Inr ([Some 1, Some 1], 1)
   \<and> solve [0, 0, 0, 0] 1 1 2 1 True (- 1) False all_ones_sampler (\<lambda>k. 0)
       = Inr ([Some 1, None, None, None], 0)
   \<and> solve [0, 0] 1 1 0 0 False 1 False all_ones_sampler (\<lambda>k. 0) = Inl ValueError"
  by (intro conjI; code_simp)

text \<open>
  C2, amended. The code validates nothing before the matrices are built: for
  \<open>qbits_integer + qbits_decimal \<le> 0\<close> the discretization builders return the empty
  vector and the empty matrix without an exception; on a grid of at least one point,
  \<^verbatim>\<open>solve\<close> with \<open>points_per_qubo = 0\<close> raises the \<^verbatim>\<open>ValueError\<close> of
  \<^verbatim>\<open>range\<close>, with a negative \<open>points_per_qubo\<close> it returns the array with only entry 0
  assigned and error 0, and with a negative \<open>dx\<close> (and a positive block size, at least
  one bit and a sampler that answers in the expected shape) it returns a solution.
\<close>

theorem configuration_not_validated:
  "(qbits_integer + qbits_decimal \<le> 0 \<longrightarrow>
      build_discretization_vector qbits_integer qbits_decimal = []
      \<and> build_discretization_matrix qbits_integer qbits_decimal = Inr [])
   \<and> (1 \<le> length f \<longrightarrow>
        solve f dx y1 qbits_integer qbits_decimal signed 0 average_solutions sample_qubo garbage
          = Inl ValueError)
   \<and> (1 \<le> length f \<and> points_per_qubo < 0 \<longrightarrow>
        solve f dx y1 qbits_integer qbits_decimal signed points_per_qubo average_solutions
            sample_qubo garbage
          = Inr ((replicate (length f) None)[0 := Some y1], 0))
   \<and> (dx < 0 \<and> 1 \<le> length f \<and> 0 < points_per_qubo \<and> 1 \<le> qbits_integer + qbits_decimal
        \<and> (\<forall>j Q. \<exists>ss. sample_qubo j Q = Some ss \<and> ss \<noteq> []
                    \<and> (\<forall>s \<in> set ss. length (sample_values s) = length Q)) \<longrightarrow>
        (\<exists>solution error.
           solve f dx y1 qbits_integer qbits_decimal signed points_per_qubo average_solutions
               sample_qubo garbage = Inr (solution, error)))"
proof -
  have c1: "qbits_integer + qbits_decimal \<le> 0 \<longrightarrow>
      build_discretization_vector qbits_integer qbits_decimal = []
      \<and> build_discretization_matrix qbits_integer qbits_decimal = Inr []"
    using discretization_empty by blast
  have c2: "1 \<le> length f \<longrightarrow>
        solve f dx y1 qbits_integer qbits_decimal signed 0 average_solutions sample_qubo garbage
          = Inl ValueError"
    using solve_step_zero by blast
  have c3: "1 \<le> length f \<and> points_per_qubo < 0 \<longrightarrow>
        solve f dx y1 qbits_integer qbits_decimal signed points_per_qubo average_solutions
            sample_qubo garbage
          = Inr ((replicate (length f) None)[0 := Some y1], 0)"
    using solve_step_negative by blast
  have c4: "dx < 0 \<and> 1 \<le> length f \<and> 0 < points_per_qubo \<and> 1 \<le> qbits_integer + qbits_decimal
        \<and> (\<forall>j Q. \<exists>ss. sample_qubo j Q = Some ss \<and> ss \<noteq> []
                    \<and> (\<forall>s \<in> set ss. length (sample_values s) = length Q)) \<longrightarrow>
        (\<exists>solution error.
           solve f dx y1 qbits_integer qbits_decimal signed points_per_qubo average_solutions
               sample_qubo garbage = Inr (solution, error))"
  proof
    assume a: "dx < 0 \<and> 1 \<le> length f \<and> 0 < points_per_qubo
        \<and> 1 \<le> qbits_integer + qbits_decimal
        \<and> (\<forall>j Q. \<exists>ss. sample_qubo j Q = Some ss \<and> ss \<noteq> []
                    \<and> (\<forall>s \<in> set ss. length (sample_values s) = length Q))"
    then have n: "1 \<le> length f" and p: "0 < points_per_qubo"
      and q: "1 \<le> qbits_integer + qbits_decimal" by simp_all
    show "\<exists>solution error.
           solve f dx y1 qbits_integer qbits_decimal signed points_per_qubo average_solutions
               sample_qubo garbage = Inr (solution, error)"
      by (rule solve_returns_pos [OF n p q]) (use a in blast)
  qed
  show ?thesis by (rule conjI [OF c1 conjI [OF c2 conjI [OF c3 c4]]])
qed

theorem configuration_not_validated_witness:
  "(0::int) + 0 \<le> 0 \<and> build_discretization_vector 0 0 = []
   \<and> build_discretization_matrix 0 0 = Inr []
   \<and> 1 \<le> length [0, 0 :: real]
   \<and> solve [0, 0] 1 1 0 0 False 0 False all_ones_sampler (\<lambda>k. 0) = Inl ValueError
   \<and> (- 2 :: int) < 0
   \<and> solve [0, 0] 1 1 0 0 False (- 2) False all_ones_sampler (\<lambda>k. 0)
       = Inr ((replicate (length [0, 0 :: real]) None)[0 := Some 1], 0)
   \<and> (- 1 :: real) < 0 \<and> (0::int) < 1 \<and> (1::int) \<le> 1 + 0
   \<and> solve [0, 0] (- 1) 1 1 0 False 1 False all_ones_sampler (\<lambda>k. 0) = Inr ([Some 1, Some 1], 1)"
proof -
  have s: "solve [0, 0] (- 1) 1 1 0 False 1 False all_ones_sampler (\<lambda>k. 0)
             = Inr ([Some 1, Some 1], 1)"
    by code_simp
  from configuration_not_validated [of 0 0 "[0, 0]" 1 1 False False all_ones_sampler "\<lambda>k. 0" "- 2"]
    configuration_not_validated [of 1 0 "[0, 0]" "- 1" 1 False False all_ones_sampler "\<lambda>k. 0" 1]
    all_ones_sampler_answers s
  show ?thesis by simp
qed

text \<open>
  C8. In an iteration of the loop of \<^verbatim>\<open>solve\<close> with the signed representation that
  completes, on a grid step other than 0, with \<open>y1\<close> the entry of the solution before the
  block and \<open>f_block\<close> the slice \<^verbatim>\<open>f[i - 1 : next_i]\<close>: the error grows by the energy
  taken from the sample set (that of the first record when the samples are not averaged)
  plus the constant \<open>(y1\<^sup>2 + 2 y1 f_block[0] dx) / dx\<^sup>2\<close> plus the sum of the squares of
  all but the last value of \<open>f_block\<close>, plus the offset
  \<open>(4 ^ (qbits_integer - 1) + 2 ^ qbits_integer (y1 + f_block[0] dx)) / dx\<^sup>2\<close>.
\<close>

theorem signed_error_shift:
  assumes blk: "solve_block f dx qbits_integer True points_per_qubo average_solutions sample_qubo
                  garbage H_discret_elem d_discret_elem (solution, error) i
                  = Inr (solution', error')"
    and y1: "solution ! (i - 1) = Some y1"
    and f_block: "f_block = take (min (i + nat points_per_qubo) (length f) - (i - 1)) (drop (i - 1) f)"
    and dx: "dx \<noteq> 0"
  shows "\<exists>Q sample_set samples_cont.
           build_qubo_matrix f_block dx y1 H_discret_elem d_discret_elem True = Inr Q
         \<and> sample_qubo i Q = Some sample_set
         \<and> samples_cont_of sample_set d_discret_elem = Inr samples_cont
         \<and> error' = error
             + snd (aggregate_samples average_solutions sample_set
                      (map (map (\<lambda>x. x - 2 powi (qbits_integer - 1))) samples_cont))
             + ((y1 ^ 2 + 2 * y1 * f_block ! 0 * dx) / dx ^ 2
                  + sum_list (map (\<lambda>x. x ^ 2) (butlast f_block)))
             + (4 powi (qbits_integer - 1) + 2 powi qbits_integer * (y1 + f_block ! 0 * dx)) / dx ^ 2
         \<and> (\<not> average_solutions \<longrightarrow>
               snd (aggregate_samples average_solutions sample_set
                      (map (map (\<lambda>x. x - 2 powi (qbits_integer - 1))) samples_cont))
                 = energy (hd sample_set))"
proof -
  from blk [unfolded solve_block_Inr_iff y1 option.case f_block [symmetric] if_True]
  obtain Q ss sc0 where
    "build_qubo_matrix f_block dx y1 H_discret_elem d_discret_elem True = Inr Q"
    "sample_qubo i Q = Some ss" "samples_cont_of ss d_discret_elem = Inr sc0"
    and e: "error' = error
              + snd (aggregate_samples average_solutions ss
                      (map (map (\<lambda>x. x - 2 powi (qbits_integer - 1))) sc0))
              + error_shift_of f_block dx y1 qbits_integer True"
    by blast
  moreover have "error_shift_of f_block dx y1 qbits_integer True
      = ((y1 ^ 2 + 2 * y1 * f_block ! 0 * dx) / dx ^ 2
                  + sum_list (map (\<lambda>x. x ^ 2) (butlast f_block)))
         + (4 powi (qbits_integer - 1) + 2 powi qbits_integer * (y1 + f_block ! 0 * dx)) / dx ^ 2"
    by (simp add: error_shift_of_def)
  moreover have "\<not> average_solutions \<longrightarrow>
               snd (aggregate_samples average_solutions ss
                      (map (map (\<lambda>x. x - 2 powi (qbits_integer - 1))) sc0))
                 = energy (hd ss)"
    by (simp add: aggregate_samples_def)
  ultimately show ?thesis
    by (intro exI [of _ Q] exI [of _ ss] exI [of _ sc0]) (simp add: add.assoc)
qed

theorem signed_error_shift_witness:
  "solve_block [1, 2] 1 2 True 1 False all_ones_sampler (\<lambda>k. 0) [[4, 2], [2, 1]] [2, 1]
       ([Some 3, None], 0) 1 = Inr ([Some 3, Some 1], 36)
   \<and> [Some 3, None :: real option] ! (1 - 1) = Some 3
   \<and> [1, 2 :: real] = take (min (1 + nat 1) (length [1, 2 :: real]) - (1 - 1)) (drop (1 - 1) [1, 2])
   \<and> (1 :: real) \<noteq> 0
   \<and> build_qubo_matrix [1, 2] 1 3 [[4, 2], [2, 1]] [2, 1] True = Inr [[- 20, 2], [2, - 11]]
   \<and> energy (hd (the (all_ones_sampler 1 [[- 20, 2], [2, - 11]]))) = 0
   \<and> (36 :: real) = 0 + 0 + ((3 ^ 2 + 2 * 3 * [1, 2] ! 0 * 1) / 1 ^ 2
                                + sum_list (map (\<lambda>x. x ^ 2) (butlast [1, 2])))
                     + (4 powi (2 - 1) + 2 powi 2 * (3 + [1, 2] ! 0 * 1)) / 1 ^ 2"
proof -
  have b: "solve_block [1, 2] 1 2 True 1 False all_ones_sampler (\<lambda>k. 0) [[4, 2], [2, 1]] [2, 1]
       ([Some 3, None], 0) 1 = Inr ([Some 3, Some 1], 36)"
    by code_simp
  have q: "build_qubo_matrix [1, 2] 1 3 [[4, 2], [2, 1]] [2, 1] True = Inr [[- 20, 2], [2, - 11]]"
    by code_simp
  have y: "[Some 3, None :: real option] ! (1 - 1) = Some 3" by simp
  have fb: "[1, 2 :: real] = take (min (1 + nat 1) (length [1, 2 :: real]) - (1 - 1))
                                (drop (1 - 1) [1, 2])"
    by simp
  have dx: "(1 :: real) \<noteq> 0" by simp
  from signed_error_shift [OF b y fb dx] q b y fb
  show ?thesis by (simp add: all_ones_sampler_def)
qed

section \<open>Claim on the general assembler\<close>

lemma py_range2_Cons: "a < b \<Longrightarrow> py_range2 a b = a # py_range2 (a + 1) b"
  unfolding py_range2_def by (subst upto_rec1) simp_all

lemma add_quadratic_terms_NameError:
  assumes "2 \<le> length funcs"
  shows "add_quadratic_terms findiff_forward state point_ind last_unknown_ind_global funcs dx
           known_points max_considered_accuracy = Inl NameError"
proof -
  have r: "py_range2 1 (int (length funcs)) = 1 # py_range2 (1 + 1) (int (length funcs))"
    using assms by (intro py_range2_Cons) simp
  have g: "get_deriv_range 1 point_ind last_unknown_ind_global max_considered_accuracy
             = (0, 1, 1, point_ind)"
    by (simp add: get_deriv_range_def)
  have c: "get_finite_difference_coefficients findiff_forward 0 1 = Inr [1]"
    by (simp add: get_finite_difference_coefficients_def)
  show ?thesis
    unfolding add_quadratic_terms_def add_quadratic_terms_in_scope_def Let_def r
    by (simp add: g c)
qed

text \<open>
  C1 asks for the matrix \<open>H\<close> that
  \<^verbatim>\<open>build_quadratic_minimization_matrices_general\<close> returns to be symmetric. The code
  returns no matrix: for every equation specification with at least one multiplier row (two
  rows of \<open>funcs\<close>), a size of the block that is not negative and at least one point to
  visit, the call ends in an exception, which is the \<^verbatim>\<open>NameError\<close> of line 137 of
  \<^verbatim>\<open>add_quadratic_terms\<close> unless \<^verbatim>\<open>add_linear_terms\<close> raises before it at point 0.
\<close>

theorem general_assembler_raises:
  assumes rows: "2 \<le> length funcs"
    and size: "0 \<le> min points_per_step (int (snd (shape funcs)) - int (length known_points))"
    and points: "1 \<le> int (length known_points)
                     + min points_per_step (int (snd (shape funcs)) - int (length known_points))"
  shows "build_quadratic_minimization_matrices_general findiff_forward funcs dx known_points
           max_considered_accuracy points_per_step = Inl NameError
       \<or> (\<exists>e d. add_linear_terms findiff_forward d 0
                    (int (length known_points)
                       + min points_per_step (int (snd (shape funcs)) - int (length known_points))
                       - 1)
                    funcs dx known_points max_considered_accuracy = Inl e
                \<and> build_quadratic_minimization_matrices_general findiff_forward funcs dx
                      known_points max_considered_accuracy points_per_step = Inl e)"
proof -
  define u where
    "u = min points_per_step (int (snd (shape funcs)) - int (length known_points))"
  define last where "last = int (length known_points) + u - 1"
  define init :: "matrix \<times> vector"
    where "init = (replicate (nat u) (replicate (nat u) 0), replicate (nat u) 0)"
  have nneg: "\<not> u < 0" using size unfolding u_def by linarith
  have r: "py_range2 0 (last + 1) = 0 # py_range2 (0 + 1) (last + 1)"
    using points unfolding last_def u_def by (intro py_range2_Cons) simp
  have unfold: "build_quadratic_minimization_matrices_general findiff_forward funcs dx
                  known_points max_considered_accuracy points_per_step
      = bind_err (bind_err (add_linear_terms findiff_forward (replicate (nat u) 0) 0 last funcs dx
                               known_points max_considered_accuracy) (\<lambda>d'.
                  add_quadratic_terms findiff_forward (replicate (nat u) (replicate (nat u) 0), d')
                    0 last funcs dx known_points max_considered_accuracy))
          (fold_err (\<lambda>(H, d) point_ind.
               bind_err (add_linear_terms findiff_forward d point_ind last
                           funcs dx known_points max_considered_accuracy) (\<lambda>d'.
               add_quadratic_terms findiff_forward (H, d') point_ind last
                   funcs dx known_points max_considered_accuracy))
             (py_range2 (0 + 1) (last + 1)))"
    unfolding build_quadratic_minimization_matrices_general_def Let_def
      u_def [symmetric] last_def [symmetric] r
    using nneg by (simp only: if_False fold_err.simps prod.case)
  show ?thesis
  proof (cases "add_linear_terms findiff_forward (replicate (nat u) 0) 0 last funcs dx
                  known_points max_considered_accuracy")
    case (Inl e)
    then have "build_quadratic_minimization_matrices_general findiff_forward funcs dx
                 known_points max_considered_accuracy points_per_step = Inl e"
      unfolding unfold by simp
    with Inl show ?thesis unfolding last_def u_def by blast
  next
    case (Inr d')
    then have "build_quadratic_minimization_matrices_general findiff_forward funcs dx
                 known_points max_considered_accuracy points_per_step = Inl NameError"
      unfolding unfold by (simp add: add_quadratic_terms_NameError [OF rows])
    then show ?thesis ..
  qed
qed

theorem general_assembler_raises_witness:
  "2 \<le> length [[0, 0], [1, 1 :: real]]
   \<and> (0::int) \<le> min 1 (int (snd (shape [[0, 0], [1, 1]])) - int (length [1 :: real]))
   \<and> (1::int) \<le> int (length [1 :: real])
                    + min 1 (int (snd (shape [[0, 0], [1, 1]])) - int (length [1 :: real]))
   \<and> add_linear_terms findiff_absent [0] 0 1 [[0, 0], [1, 1]] 1 [1] 1 = Inr [0]
   \<and> build_quadratic_minimization_matrices_general findiff_absent [[0, 0], [1, 1]] 1 [1] 1 1
       = Inl NameError"
proof -
  have a: "add_linear_terms findiff_absent [0] 0 1 [[0, 0], [1, 1]] 1 [1] 1 = Inr [0]"
    by code_simp
  have s: "snd (shape [[0, 0], [1, 1]]) = 2" by (simp add: shape_def)
  have "add_linear_terms findiff_absent d 0 1 [[0, 0], [1, 1]] 1 [1] 1 = Inr d" for d
    by (simp add: add_linear_terms_def py_range2_def get_deriv_range_def)
  with general_assembler_raises [of "[[0, 0], [1, 1]]" 1 "[1]" findiff_absent 1 1] a s
  show ?thesis by simp
qed


end
